theory Spec2Isabelle
  imports Main "HOL-Library.Word"
begin

section \<open>Data model of \<open>main.py\<close>\<close>

text \<open>
  A Python \<open>str\<close> is a sequence of Unicode code points, an \<open>int\<close> is unbounded, \<open>bytes\<close>
  is a sequence of octets. String literals of the source are written \<open>py ''...''\<close>.
\<close>

type_synonym str = "nat list"
type_synonym bytes = "8 word list"

definition py :: "string \<Rightarrow> str" where
  "py s = map of_char s"

record User =
  id :: int
  email :: str
  hashed_password :: str

record UserCreate =
  email :: str
  password :: str


record Cliente =
  id :: int
  documento :: str
  first_name :: str
  last_name :: str
  email :: str
  password :: str

record Factura =
  id :: int
  client_id :: int
  company_name :: str
  nit :: str
  code :: str

record Producto =
  id :: int
  name :: str
  description :: str

text \<open>
  The exceptions a request can end with. \<open>HTTPException\<close> carries \<open>status_code\<close> and
  \<open>detail\<close>. \<open>RequestValidationError\<close> is the framework refusing the request before
  the handler runs (status 422), \<open>ResponseValidationError\<close> the framework refusing what
  the handler returned. The others are raised by the interpreter and the libraries inside
  the handlers and are not caught (status 500).
\<close>

datatype exc =
    HTTPException int str
  | ValidationError
  | TypeError
  | UnicodeDecodeError
  | UnicodeEncodeError
  | CsvError
  | PasswordError
  | KeyError
  | AttributeError
  | RequestValidationError
  | ResponseValidationError

subsection \<open>Dictionaries\<close>

text \<open>
  A \<open>dict\<close> keeps its keys in insertion order, and \<open>d[k] = v\<close> on a key that is present
  replaces the value in place. It is an association list without repeated keys.
\<close>

type_synonym ('k, 'v) dict = "('k \<times> 'v) list"

fun dict_in :: "'k \<Rightarrow> ('k, 'v) dict \<Rightarrow> bool" where
  "dict_in k [] = False"
| "dict_in k ((k', v') # d) = (k' = k \<or> dict_in k d)"

fun dict_get :: "('k, 'v) dict \<Rightarrow> 'k \<Rightarrow> 'v option" where
  "dict_get [] k = None"
| "dict_get ((k', v') # d) k = (if k' = k then Some v' else dict_get d k)"

fun dict_set :: "('k, 'v) dict \<Rightarrow> 'k \<Rightarrow> 'v \<Rightarrow> ('k, 'v) dict" where
  "dict_set [] k v = [(k, v)]"
| "dict_set ((k', v') # d) k v = (if k' = k then (k, v) # d else (k', v') # dict_set d k v)"

text \<open>\<open>d[k]\<close> as an expression: a key that is not there raises \<open>KeyError\<close>.\<close>

definition subscript :: "('k, 'v) dict \<Rightarrow> 'k \<Rightarrow> exc + 'v" where
  "subscript d k = (case dict_get d k of None \<Rightarrow> Inl KeyError | Some v \<Rightarrow> Inr v)"

definition dict_values :: "('k, 'v) dict \<Rightarrow> 'v list" where
  "dict_values d = map snd d"

definition dict_items :: "('k, 'v) dict \<Rightarrow> ('k \<times> 'v) list" where
  "dict_items d = d"

subsection \<open>The four module-level stores\<close>

record state =
  db_users :: "(str, User) dict"
  db_clientes :: "(int, Cliente) dict"
  db_facturas :: "(int, Factura) dict"
  db_productos :: "(int, Producto) dict"

definition initial :: state where
  "initial = \<lparr>db_users = [], db_clientes = [], db_facturas = [], db_productos = []\<rparr>"

text \<open>
  A handler takes the stores and returns them with its outcome: \<open>Inl\<close> the exception it
  raised, \<open>Inr\<close> the value it returned.
\<close>

type_synonym 'a outcome = "state \<times> (exc + 'a)"

section \<open>The registries\<close>

definition create_cliente :: "state \<Rightarrow> Cliente \<Rightarrow> Cliente outcome" where
  "create_cliente s cliente =
     (if dict_in (Cliente.id cliente) (db_clientes s)
      then (s, Inl (HTTPException 400 (py ''Client ID already exists'')))
      else (s\<lparr>db_clientes := dict_set (db_clientes s) (Cliente.id cliente) cliente\<rparr>,
            Inr cliente))"

definition read_clientes :: "state \<Rightarrow> Cliente list outcome" where
  "read_clientes s = (s, Inr (dict_values (db_clientes s)))"

definition read_cliente :: "state \<Rightarrow> int \<Rightarrow> Cliente outcome" where
  "read_cliente s cliente_id =
     (if \<not> dict_in cliente_id (db_clientes s)
      then (s, Inl (HTTPException 404 (py ''Client not found'')))
      else (s, subscript (db_clientes s) cliente_id))"

definition create_factura :: "state \<Rightarrow> Factura \<Rightarrow> Factura outcome" where
  "create_factura s factura =
     (if dict_in (Factura.id factura) (db_facturas s)
      then (s, Inl (HTTPException 400 (py ''Factura ID already exists'')))
      else (s\<lparr>db_facturas := dict_set (db_facturas s) (Factura.id factura) factura\<rparr>,
            Inr factura))"

definition read_facturas :: "state \<Rightarrow> Factura list outcome" where
  "read_facturas s = (s, Inr (dict_values (db_facturas s)))"

definition read_factura :: "state \<Rightarrow> int \<Rightarrow> Factura outcome" where
  "read_factura s factura_id =
     (if \<not> dict_in factura_id (db_facturas s)
      then (s, Inl (HTTPException 404 (py ''Factura not found'')))
      else (s, subscript (db_facturas s) factura_id))"

definition create_producto :: "state \<Rightarrow> Producto \<Rightarrow> Producto outcome" where
  "create_producto s producto =
     (if dict_in (Producto.id producto) (db_productos s)
      then (s, Inl (HTTPException 400 (py ''Producto ID already exists'')))
      else (s\<lparr>db_productos := dict_set (db_productos s) (Producto.id producto) producto\<rparr>,
            Inr producto))"

definition read_productos :: "state \<Rightarrow> Producto list outcome" where
  "read_productos s = (s, Inr (dict_values (db_productos s)))"

definition read_producto :: "state \<Rightarrow> int \<Rightarrow> Producto outcome" where
  "read_producto s producto_id =
     (if \<not> dict_in producto_id (db_productos s)
      then (s, Inl (HTTPException 404 (py ''Producto not found'')))
      else (s, subscript (db_productos s) producto_id))"

section \<open>The protected route\<close>

text \<open>
  \<open>protected_route\<close> receives the bearer token that the \<open>oauth2_scheme\<close> dependency took
  from the request and never looks at it.
\<close>

definition protected_route :: "state \<Rightarrow> str \<Rightarrow> (str \<times> str) list outcome" where
  "protected_route s token = (s, Inr [(py ''message'', py ''Access granted'')])"

section \<open>The user store\<close>

text \<open>
  \<open>bcrypt.hash\<close> and \<open>bcrypt.verify\<close> belong to the password library. They are
  parameters of the model: \<open>bcrypt_hash secret\<close> is the salted hash the library returns
  for this call, \<open>bcrypt_verify secret hash\<close> its verdict, and \<open>None\<close> stands for the
  library refusing the secret with an exception of its own.
\<close>








definition register :: "(str \<Rightarrow> str option) \<Rightarrow> state \<Rightarrow> UserCreate \<Rightarrow> User outcome" where
  "register bcrypt_hash s user =
     (if dict_in (UserCreate.email user) (db_users s)
      then (s, Inl (HTTPException 400 (py ''Email already registered'')))
      else (case bcrypt_hash (UserCreate.password user) of
              None \<Rightarrow> (s, Inl PasswordError)
            | Some hashed \<Rightarrow>
                (let user_data = \<lparr>User.id = int (length (db_users s)) + 1,
                                   User.email = UserCreate.email user,
                                   hashed_password = hashed\<rparr>
                 in (s\<lparr>db_users := dict_set (db_users s) (UserCreate.email user) user_data\<rparr>,
                     Inr user_data))))"





section \<open>The CSV export\<close>

text \<open>\<open>str(n)\<close> for an integer: decimal digits, with a minus sign below zero.\<close>

fun digits :: "nat \<Rightarrow> str" where
  "digits n = (if n < 10 then [48 + n] else digits (n div 10) @ [48 + n mod 10])"

declare digits.simps [simp del]

definition str_int :: "int \<Rightarrow> str" where
  "str_int i = (if i < 0 then 45 # digits (nat (- i)) else digits (nat i))"

datatype cell = CInt int | CStr str

fun str_of :: "cell \<Rightarrow> str" where
  "str_of (CInt i) = str_int i"
| "str_of (CStr s) = s"

fun join :: "str \<Rightarrow> str list \<Rightarrow> str" where
  "join sep [] = []"
| "join sep [x] = x"
| "join sep (x # y # ys) = x @ sep @ join sep (y # ys)"

definition headers :: "str list" where
  "headers = [py ''ID'', py ''Documento'', py ''Nombre Completo'', py ''Cantidad de Facturas'']"

text \<open>The first loop of \<open>export_clients_csv\<close>: one appended row per item of \<open>db_clientes\<close>.\<close>

fun collect_rows ::
  "(int \<times> Cliente) list \<Rightarrow> (int, Factura) dict \<Rightarrow> cell list list \<Rightarrow> cell list list" where
  "collect_rows [] facturas rows = rows"
| "collect_rows ((cliente_id, cliente) # items) facturas rows =
     (let nombre_completo = first_name cliente @ [32] @ last_name cliente;
          cantidad_facturas =
            length (filter (\<lambda>f. client_id f = cliente_id) (dict_values facturas))
      in collect_rows items facturas
           (rows @ [[CInt (Cliente.id cliente), CStr (documento cliente),
                     CStr nombre_completo, CInt (int cantidad_facturas)]]))"

text \<open>
  The generator \<open>generate\<close>. What it does, in order, is a list of events: \<open>Sleep\<close> for each
  \<open>await asyncio.sleep(0)\<close>, \<open>Yield c\<close> for each \<open>yield c\<close>; the chunks of the response
  body are the yielded values.
\<close>

datatype event = Sleep | Yield str

fun generate_loop :: "cell list list \<Rightarrow> str \<Rightarrow> event list \<Rightarrow> str \<times> event list" where
  "generate_loop [] content evs = (content, evs)"
| "generate_loop (row # rows) content evs =
     generate_loop rows (content @ join [44] (map str_of row) @ [10]) (evs @ [Sleep])"

definition generate :: "cell list list \<Rightarrow> event list" where
  "generate rows =
     (case generate_loop rows (join [44] headers @ [10]) [] of
        (content, evs) \<Rightarrow> evs @ [Yield content])"

fun chunks :: "event list \<Rightarrow> str list" where
  "chunks [] = []"
| "chunks (Sleep # evs) = chunks evs"
| "chunks (Yield c # evs) = c # chunks evs"

record StreamingResponse =
  body_iterator :: "event list"
  media_type :: str
  response_headers :: "(str \<times> str) list"

definition export_clients_csv :: "state \<Rightarrow> StreamingResponse outcome" where
  "export_clients_csv s =
     (let rows = collect_rows (dict_items (db_clientes s)) (db_facturas s) []
      in (s, Inr \<lparr>body_iterator = generate rows,
                   media_type = py ''text/csv'',
                   response_headers =
                     [(py ''Content-Disposition'', py ''attachment;filename=clientes.csv'')]\<rparr>))"

text \<open>The text a client of the endpoint receives: the chunks of the body, one after the other.\<close>

definition body_text :: "StreamingResponse \<Rightarrow> str" where
  "body_text r = concat (chunks (body_iterator r))"

section \<open>The CSV import\<close>

subsection \<open>\<open>bytes.decode("utf-8")\<close> and its inverse\<close>

text \<open>
  The strict UTF-8 codec: one to four octets per code point, no overlong forms, no
  surrogates, nothing above U+10FFFF. The decoder works on the values of the octets.
\<close>

definition is_cont :: "nat \<Rightarrow> bool" where
  "is_cont b = (128 \<le> b \<and> b < 192)"

fun decode_octets :: "nat list \<Rightarrow> str option" where
  "decode_octets [] = Some []"
| "decode_octets (b # bs) =
     (if b < 128 then map_option ((#) b) (decode_octets bs)
      else if 194 \<le> b \<and> b < 224 then
        (case bs of
           c1 # r \<Rightarrow>
             if is_cont c1
             then map_option ((#) ((b - 192) * 64 + (c1 - 128))) (decode_octets r)
             else None
         | _ \<Rightarrow> None)
      else if 224 \<le> b \<and> b < 240 then
        (case bs of
           c1 # c2 # r \<Rightarrow>
             if is_cont c1 \<and> is_cont c2 \<and> (b = 224 \<longrightarrow> 160 \<le> c1) \<and> (b = 237 \<longrightarrow> c1 < 160)
             then map_option ((#) ((b - 224) * 4096 + (c1 - 128) * 64 + (c2 - 128)))
                    (decode_octets r)
             else None
         | _ \<Rightarrow> None)
      else if 240 \<le> b \<and> b < 245 then
        (case bs of
           c1 # c2 # c3 # r \<Rightarrow>
             if is_cont c1 \<and> is_cont c2 \<and> is_cont c3
                \<and> (b = 240 \<longrightarrow> 144 \<le> c1) \<and> (b = 244 \<longrightarrow> c1 < 144)
             then map_option
                    ((#) ((b - 240) * 262144 + (c1 - 128) * 4096 + (c2 - 128) * 64 + (c3 - 128)))
                    (decode_octets r)
             else None
         | _ \<Rightarrow> None)
      else None)"

definition utf8_decode :: "bytes \<Rightarrow> exc + str" where
  "utf8_decode bs =
     (case decode_octets (map unat bs) of None \<Rightarrow> Inl UnicodeDecodeError | Some s \<Rightarrow> Inr s)"

definition encode_cp :: "nat \<Rightarrow> nat list option" where
  "encode_cp c =
     (if c < 128 then Some [c]
      else if c < 2048 then Some [192 + c div 64, 128 + c mod 64]
      else if c < 65536 then
        (if 55296 \<le> c \<and> c < 57344 then None
         else Some [224 + c div 4096, 128 + (c div 64) mod 64, 128 + c mod 64])
      else if c < 1114112 then
        Some [240 + c div 262144, 128 + (c div 4096) mod 64, 128 + (c div 64) mod 64,
              128 + c mod 64]
      else None)"

fun encode_octets :: "str \<Rightarrow> nat list option" where
  "encode_octets [] = Some []"
| "encode_octets (c # cs) =
     (case encode_cp c of
        None \<Rightarrow> None
      | Some bs \<Rightarrow> map_option ((@) bs) (encode_octets cs))"

definition utf8_encode :: "str \<Rightarrow> exc + bytes" where
  "utf8_encode s =
     (case encode_octets s of None \<Rightarrow> Inl UnicodeEncodeError | Some bs \<Rightarrow> Inr (map of_nat bs))"

subsection \<open>\<open>str.splitlines()\<close>\<close>

definition is_linebreak :: "nat \<Rightarrow> bool" where
  "is_linebreak c = (c \<in> {10, 11, 12, 13, 28, 29, 30, 133, 8232, 8233})"

text \<open>\<open>splitlines_from cur s\<close>: the lines of \<open>s\<close>, the first one prefixed by \<open>cur\<close>.\<close>

fun splitlines_from :: "str \<Rightarrow> str \<Rightarrow> str list" where
  "splitlines_from cur [] = (if cur = [] then [] else [cur])"
| "splitlines_from cur [c] = (if is_linebreak c then [cur] else [cur @ [c]])"
| "splitlines_from cur (c # d # cs) =
     (if c = 13 \<and> d = 10 then cur # splitlines_from [] cs
      else if is_linebreak c then cur # splitlines_from [] (d # cs)
      else splitlines_from (cur @ [c]) (d # cs))"

definition splitlines :: "str \<Rightarrow> str list" where
  "splitlines s = splitlines_from [] s"

subsection \<open>\<open>csv.reader\<close> in the \<open>excel\<close> dialect\<close>

text \<open>
  The reader's state machine with the dialect that \<open>csv.DictReader\<close> uses when none is
  given: delimiter \<open>,\<close>, quote character \<open>"\<close>, doubled quotes, no escape character, no
  skipping of initial spaces, not strict. A field longer than the field size limit is an
  error. \<open>EOL\<close> is the end-of-line signal the reader feeds itself after each line; the
  reader adds characters to a field, never \<open>EOL\<close>. A NUL character is a character like
  any other, as it is from CPython 3.11 on.
\<close>

datatype ParserState =
  START_RECORD | START_FIELD | IN_FIELD | IN_QUOTED_FIELD | QUOTE_IN_QUOTED_FIELD | EAT_CRNL

record ReaderObj =
  rstate :: ParserState
  rfields :: "str list"
  rfield :: str

datatype sym = Chr nat | EOL

definition delimiter :: nat where "delimiter = 44"
definition quotechar :: nat where "quotechar = 34"
definition field_limit :: nat where "field_limit = 131072"

definition is_newline :: "sym \<Rightarrow> bool" where
  "is_newline c = (c = Chr 10 \<or> c = Chr 13)"

definition parse_save_field :: "ReaderObj \<Rightarrow> ReaderObj" where
  "parse_save_field self = self\<lparr>rfields := rfields self @ [rfield self], rfield := []\<rparr>"

definition parse_add_char :: "ReaderObj \<Rightarrow> sym \<Rightarrow> exc + ReaderObj" where
  "parse_add_char self c =
     (case c of
        EOL \<Rightarrow> Inr self
      | Chr n \<Rightarrow>
          if field_limit \<le> length (rfield self) then Inl CsvError
          else Inr (self\<lparr>rfield := rfield self @ [n]\<rparr>))"

definition set_state :: "ParserState \<Rightarrow> exc + ReaderObj \<Rightarrow> exc + ReaderObj" where
  "set_state st r = (case r of Inl e \<Rightarrow> Inl e | Inr self \<Rightarrow> Inr (self\<lparr>rstate := st\<rparr>))"

definition process_START_FIELD :: "ReaderObj \<Rightarrow> sym \<Rightarrow> exc + ReaderObj" where
  "process_START_FIELD self c =
     (if is_newline c \<or> c = EOL then
        Inr ((parse_save_field self)\<lparr>rstate := (if c = EOL then START_RECORD else EAT_CRNL)\<rparr>)
      else if c = Chr quotechar then Inr (self\<lparr>rstate := IN_QUOTED_FIELD\<rparr>)
      else if c = Chr delimiter then Inr (parse_save_field self)
      else set_state IN_FIELD (parse_add_char self c))"

definition parse_process_char :: "ReaderObj \<Rightarrow> sym \<Rightarrow> exc + ReaderObj" where
  "parse_process_char self c =
     (case rstate self of
        START_RECORD \<Rightarrow>
          if c = EOL then Inr self
          else if is_newline c then Inr (self\<lparr>rstate := EAT_CRNL\<rparr>)
          else process_START_FIELD (self\<lparr>rstate := START_FIELD\<rparr>) c
      | START_FIELD \<Rightarrow> process_START_FIELD self c
      | IN_FIELD \<Rightarrow>
          if is_newline c \<or> c = EOL then
            Inr ((parse_save_field self)\<lparr>rstate := (if c = EOL then START_RECORD else EAT_CRNL)\<rparr>)
          else if c = Chr delimiter then Inr ((parse_save_field self)\<lparr>rstate := START_FIELD\<rparr>)
          else parse_add_char self c
      | IN_QUOTED_FIELD \<Rightarrow>
          if c = EOL then Inr self
          else if c = Chr quotechar then Inr (self\<lparr>rstate := QUOTE_IN_QUOTED_FIELD\<rparr>)
          else parse_add_char self c
      | QUOTE_IN_QUOTED_FIELD \<Rightarrow>
          if c = Chr quotechar then set_state IN_QUOTED_FIELD (parse_add_char self c)
          else if c = Chr delimiter then Inr ((parse_save_field self)\<lparr>rstate := START_FIELD\<rparr>)
          else if is_newline c \<or> c = EOL then
            Inr ((parse_save_field self)\<lparr>rstate := (if c = EOL then START_RECORD else EAT_CRNL)\<rparr>)
          else set_state IN_FIELD (parse_add_char self c)
      | EAT_CRNL \<Rightarrow>
          if is_newline c then Inr self
          else if c = EOL then Inr (self\<lparr>rstate := START_RECORD\<rparr>)
          else Inl CsvError)"

fun process_chars :: "ReaderObj \<Rightarrow> str \<Rightarrow> exc + ReaderObj" where
  "process_chars self [] = Inr self"
| "process_chars self (c # cs) =
     (case parse_process_char self (Chr c) of
        Inl e \<Rightarrow> Inl e
      | Inr self' \<Rightarrow> process_chars self' cs)"

text \<open>
  One call of the reader's \<open>__next__\<close> on the lines that are left: \<open>Inr None\<close> is
  \<open>StopIteration\<close>, \<open>Inr (Some (row, rest))\<close> a row and the lines not yet consumed.
\<close>

fun Reader_loop :: "ReaderObj \<Rightarrow> str list \<Rightarrow> exc + (str list \<times> str list) option" where
  "Reader_loop self [] =
     (if rfield self \<noteq> [] \<or> rstate self = IN_QUOTED_FIELD
      then Inr (Some (rfields (parse_save_field self), []))
      else Inr None)"
| "Reader_loop self (line # lines) =
     (case process_chars self line of
        Inl e \<Rightarrow> Inl e
      | Inr self1 \<Rightarrow>
          (case parse_process_char self1 EOL of
             Inl e \<Rightarrow> Inl e
           | Inr self2 \<Rightarrow>
               if rstate self2 \<noteq> START_RECORD then Reader_loop self2 lines
               else Inr (Some (rfields self2, lines))))"

definition parse_reset :: ReaderObj where
  "parse_reset = \<lparr>rstate = START_RECORD, rfields = [], rfield = []\<rparr>"

definition Reader_iternext :: "str list \<Rightarrow> exc + (str list \<times> str list) option" where
  "Reader_iternext lines = Reader_loop parse_reset lines"

text \<open>A row that the reader returns leaves fewer lines behind than it was given.\<close>

lemma Reader_loop_rest:
  "Reader_loop self lines = Inr (Some (row, rest)) \<Longrightarrow> length rest \<le> length lines"
proof (induction lines arbitrary: self)
  case Nil
  then show ?case by (simp split: if_splits)
next
  case (Cons line lines)
  then show ?case
    by (fastforce split: sum.splits if_splits)
qed

lemma Reader_iternext_rest:
  assumes "Reader_iternext lines = Inr (Some (row, rest))"
  shows "length rest < length lines"
proof (cases lines)
  case Nil
  with assms show ?thesis by (simp add: Reader_iternext_def parse_reset_def)
next
  case (Cons line lines')
  from assms Cons have "length rest \<le> length lines'"
    by (auto simp: Reader_iternext_def split: sum.splits if_splits dest: Reader_loop_rest)
  with Cons show ?thesis by simp
qed

subsection \<open>\<open>csv.DictReader\<close>\<close>

text \<open>
  \<open>DictReader.__next__\<close> after the header has been read: it skips the rows that are
  \<open>[]\<close>, and builds the dictionary of the first row that is not. A value of that
  dictionary is a string, \<open>None\<close> (the \<open>restval\<close> of a short row) or the list of the
  surplus values of a long row, which is stored under the key \<open>None\<close> (the \<open>restkey\<close>).
\<close>

function next_row :: "str list \<Rightarrow> exc + (str list \<times> str list) option" where
  "next_row lines =
     (case Reader_iternext lines of
        Inl e \<Rightarrow> Inl e
      | Inr None \<Rightarrow> Inr None
      | Inr (Some (row, rest)) \<Rightarrow> if row = [] then next_row rest else Inr (Some (row, rest)))"
  by pat_completeness auto
termination
  by (relation "measure length") (auto dest: Reader_iternext_rest)

declare next_row.simps [simp del]

datatype pyval = VStr str | VNone | VList "str list"

type_synonym kwargs = "(str option, pyval) dict"

fun dict_of :: "('k \<times> 'v) list \<Rightarrow> ('k, 'v) dict \<Rightarrow> ('k, 'v) dict" where
  "dict_of [] d = d"
| "dict_of ((k, v) # kvs) d = dict_of kvs (dict_set d k v)"

fun set_restval :: "str list \<Rightarrow> kwargs \<Rightarrow> kwargs" where
  "set_restval [] d = d"
| "set_restval (key # keys) d = set_restval keys (dict_set d (Some key) VNone)"

definition DictReader_row :: "str list \<Rightarrow> str list \<Rightarrow> kwargs" where
  "DictReader_row fieldnames row =
     (let d = dict_of (zip (map Some fieldnames) (map VStr row)) [];
          lf = length fieldnames;
          lr = length row
      in if lf < lr then dict_set d None (VList (drop lf row))
         else if lf > lr then set_restval (drop lr fieldnames) d
         else d)"

subsection \<open>Building a \<open>Cliente\<close> from the keywords of a row\<close>

text \<open>
  The call needs every keyword to be a string, and validation needs each of the six
  fields to be present with a string value; keywords that are no field are ignored.
  How the validation library reads the string of \<open>id\<close> as an integer is the
  parameter \<open>int_of\<close>, \<open>None\<close> where it rejects the string.
\<close>

definition str_field :: "kwargs \<Rightarrow> string \<Rightarrow> str option" where
  "str_field kw fname =
     (case dict_get kw (Some (py fname)) of Some (VStr v) \<Rightarrow> Some v | _ \<Rightarrow> None)"

definition Cliente_init :: "(str \<Rightarrow> int option) \<Rightarrow> kwargs \<Rightarrow> exc + Cliente" where
  "Cliente_init int_of kw =
     (if dict_in None kw then Inl TypeError
      else
        (case (Option.bind (str_field kw ''id'') int_of, str_field kw ''documento'',
               str_field kw ''first_name'', str_field kw ''last_name'',
               str_field kw ''email'', str_field kw ''password'') of
           (Some i, Some d, Some f, Some l, Some e, Some p) \<Rightarrow>
             Inr \<lparr>Cliente.id = i, documento = d, first_name = f, last_name = l,
                  Cliente.email = e, Cliente.password = p\<rparr>
         | _ \<Rightarrow> Inl ValidationError))"

subsection \<open>The handler\<close>

text \<open>The loop \<open>for row in reader\<close>, from the lines after the header.\<close>

function import_rows ::
  "(str \<Rightarrow> int option) \<Rightarrow> str list \<Rightarrow> str list \<Rightarrow> state \<Rightarrow> state \<times> (exc + unit)" where
  "import_rows int_of fieldnames lines s =
     (case next_row lines of
        Inl e \<Rightarrow> (s, Inl e)
      | Inr None \<Rightarrow> (s, Inr ())
      | Inr (Some (row, rest)) \<Rightarrow>
          (case Cliente_init int_of (DictReader_row fieldnames row) of
             Inl e \<Rightarrow> (s, Inl e)
           | Inr cliente \<Rightarrow>
               import_rows int_of fieldnames rest
                 (s\<lparr>db_clientes := dict_set (db_clientes s) (Cliente.id cliente) cliente\<rparr>)))"
  by pat_completeness auto

lemma next_row_rest:
  "next_row lines = Inr (Some (row, rest)) \<Longrightarrow> length rest < length lines"
proof (induction lines rule: next_row.induct)
  case (1 lines)
  show ?case
  proof (cases "Reader_iternext lines")
    case (Inl e)
    with "1.prems" show ?thesis by (simp add: next_row.simps)
  next
    case (Inr r)
    show ?thesis
    proof (cases r)
      case None
      with Inr "1.prems" show ?thesis by (simp add: next_row.simps)
    next
      case (Some p)
      obtain row' rest' where p: "p = (row', rest')" by (cases p)
      have shorter: "length rest' < length lines"
        using Inr Some p by (auto dest: Reader_iternext_rest)
      show ?thesis
      proof (cases "row' = []")
        case True
        have "next_row rest' = Inr (Some (row, rest))"
          using "1.prems" Inr Some p True by (simp add: next_row.simps)
        then have "length rest < length rest'"
          using "1.IH" [of r p row' rest'] Inr Some p True by simp
        with shorter show ?thesis by simp
      next
        case False
        with "1.prems" Inr Some p shorter show ?thesis by (simp add: next_row.simps)
      qed
    qed
  qed
qed

termination import_rows
  by (relation "measure (\<lambda>(int_of, fieldnames, lines, s). length lines)")
     (auto dest: next_row_rest)

declare import_rows.simps [simp del]

definition upload_clients_csv ::
  "(str \<Rightarrow> int option) \<Rightarrow> state \<Rightarrow> bytes \<Rightarrow> (str \<times> str) list outcome" where
  "upload_clients_csv int_of s file =
     (case utf8_decode file of
        Inl e \<Rightarrow> (s, Inl e)
      | Inr content \<Rightarrow>
          (case Reader_iternext (splitlines content) of
             Inl e \<Rightarrow> (s, Inl e)
           | Inr None \<Rightarrow> (s, Inr [(py ''message'', py ''Clientes cargados exitosamente'')])
           | Inr (Some (fieldnames, lines)) \<Rightarrow>
               (case import_rows int_of fieldnames lines s of
                  (s', Inl e) \<Rightarrow> (s', Inl e)
                | (s', Inr u) \<Rightarrow>
                    (s', Inr [(py ''message'', py ''Clientes cargados exitosamente'')]))))"

section \<open>Sample data\<close>

text \<open>The records of the scenarios, and the stores after they have been created.\<close>

definition ana :: Cliente where
  "ana = \<lparr>Cliente.id = 1, documento = py ''D1'', first_name = py ''Ana'', last_name = py ''Lee'',
           Cliente.email = py ''a@x.com'', Cliente.password = py ''p''\<rparr>"

definition bob :: Cliente where
  "bob = \<lparr>Cliente.id = 2, documento = py ''D2'', first_name = py ''Bob'', last_name = py ''Ray'',
           Cliente.email = py ''b@x.com'', Cliente.password = py ''q''\<rparr>"

definition acme :: Factura where
  "acme = \<lparr>Factura.id = 10, client_id = 1, company_name = py ''Acme'', nit = py ''N1'',
            code = py ''C1''\<rparr>"

definition pen :: Producto where
  "pen = \<lparr>Producto.id = 7, name = py ''Pen'', description = py ''Blue''\<rparr>"

definition stocked :: state where
  "stocked = \<lparr>db_users = [], db_clientes = [(1, ana)], db_facturas = [(10, acme)],
               db_productos = [(7, pen)]\<rparr>"

text \<open>
  A reading of decimal literals with an optional minus sign: the \<open>int_of\<close> of the
  examples. The CSV file of the examples gives client 1 a new document and name and adds
  client 2.
\<close>

fun decimal_digits :: "str \<Rightarrow> nat \<Rightarrow> nat option" where
  "decimal_digits [] acc = Some acc"
| "decimal_digits (c # cs) acc =
     (if 48 \<le> c \<and> c \<le> 57 then decimal_digits cs (10 * acc + (c - 48)) else None)"

definition decimal :: "str \<Rightarrow> int option" where
  "decimal s =
     (case s of
        [] \<Rightarrow> None
      | c # cs \<Rightarrow>
          if c = 45 then (if cs = [] then None else map_option (\<lambda>n. - int n) (decimal_digits cs 0))
          else map_option int (decimal_digits s 0))"

definition ann :: Cliente where
  "ann = \<lparr>Cliente.id = 1, documento = py ''D9'', first_name = py ''Ann'', last_name = py ''Lee'',
           Cliente.email = py ''a@y.com'', Cliente.password = py ''r''\<rparr>"

definition clients_csv :: str where
  "clients_csv =
     py ''id,documento,first_name,last_name,email,password'' @ [10]
     @ py ''1,D9,Ann,Lee,a@y.com,r'' @ [10]
     @ py ''2,D2,Bob,Ray,b@x.com,q'' @ [10]"

definition encoded :: "str \<Rightarrow> bytes" where
  "encoded s = (case utf8_encode s of Inl e \<Rightarrow> [] | Inr bs \<Rightarrow> bs)"

text \<open>
  A hash and a verification with the shape of the library's, for the examples: the hash
  is a fixed prefix and the secret, and verification compares.
\<close>

definition sample_hash :: "str \<Rightarrow> str option" where
  "sample_hash secret = Some (py ''$2b$12$'' @ secret)"


definition eva :: UserCreate where
  "eva = \<lparr>UserCreate.email = py ''e@x.com'', UserCreate.password = py ''pw''\<rparr>"

definition eva_user :: User where
  "eva_user = \<lparr>User.id = 1, User.email = py ''e@x.com'', hashed_password = py ''$2b$12$pw''\<rparr>"




definition scenario :: state where
  "scenario = fst (create_factura (fst (create_cliente initial ana)) acme)"


section \<open>Notions the properties are stated with\<close>

text \<open>Every key of a registry is the id of the record stored under it.\<close>

definition keyed_by :: "('r \<Rightarrow> 'k) \<Rightarrow> ('k, 'r) dict \<Rightarrow> bool" where
  "keyed_by ident d = (\<forall>(k, r) \<in> set d. ident r = k)"

text \<open>
  The line of the client summary as the specification words it: id, document, first and
  last name joined by one space, and the number of invoices whose \<open>client_id\<close> is the
  id of the client, separated by commas and ended by a line feed.
\<close>

definition invoice_count :: "(int, Factura) dict \<Rightarrow> Cliente \<Rightarrow> nat" where
  "invoice_count facturas c =
     length (filter (\<lambda>f. client_id f = Cliente.id c) (dict_values facturas))"

definition summary_line :: "(int, Factura) dict \<Rightarrow> Cliente \<Rightarrow> str" where
  "summary_line facturas c =
     str_int (Cliente.id c) @ py '','' @ documento c @ py '','' @
     first_name c @ py '' '' @ last_name c @ py '','' @
     str_int (int (invoice_count facturas c)) @ [10]"

text \<open>
  All the dictionaries that iterating a \<open>csv.DictReader\<close> over the lines gives, when the
  reader gets to the end of the lines without an error: the first row is the header.
\<close>

function read_rows :: "str list \<Rightarrow> str list \<Rightarrow> exc + kwargs list" where
  "read_rows fieldnames lines =
     (case next_row lines of
        Inl e \<Rightarrow> Inl e
      | Inr None \<Rightarrow> Inr []
      | Inr (Some (row, rest)) \<Rightarrow>
          (case read_rows fieldnames rest of
             Inl e \<Rightarrow> Inl e
           | Inr rows \<Rightarrow> Inr (DictReader_row fieldnames row # rows)))"
  by pat_completeness auto
termination
  by (relation "measure (\<lambda>(fieldnames, lines). length lines)") (auto dest: next_row_rest)

declare read_rows.simps [simp del]

definition DictReader_rows :: "str list \<Rightarrow> exc + kwargs list" where
  "DictReader_rows lines =
     (case Reader_iternext lines of
        Inl e \<Rightarrow> Inl e
      | Inr None \<Rightarrow> Inr []
      | Inr (Some (fieldnames, rest)) \<Rightarrow> read_rows fieldnames rest)"

text \<open>Storing clients one after the other, each under its id, whatever is there already.\<close>

definition upsert_all :: "(int, Cliente) dict \<Rightarrow> Cliente list \<Rightarrow> (int, Cliente) dict" where
  "upsert_all d cs = foldl (\<lambda>d c. dict_set d (Cliente.id c) c) d cs"

text \<open>
  What a round trip through the summary is to preserve of a client registry: the id, the
  document number and the names of each client.
\<close>

definition client_facts :: "(int, Cliente) dict \<Rightarrow> (int \<times> str \<times> str \<times> str) list" where
  "client_facts d =
     map (\<lambda>c. (Cliente.id c, documento c, first_name c, last_name c)) (dict_values d)"

text \<open>The chunks of the body of the export's response.\<close>

definition response_chunks :: "state \<Rightarrow> str list" where
  "response_chunks s =
     (case snd (export_clients_csv s) of Inl e \<Rightarrow> [] | Inr r \<Rightarrow> chunks (body_iterator r))"

text \<open>Once a record has begun, the reader ends it with at least one field.\<close>

definition started :: "ReaderObj \<Rightarrow> bool" where
  "started p = (rfields p \<noteq> [] \<or> rstate p = START_FIELD \<or> rstate p = IN_FIELD
                \<or> rstate p = IN_QUOTED_FIELD \<or> rstate p = QUOTE_IN_QUOTED_FIELD)"

text \<open>The text of the export as its receiver reads it, and the file that holds it.\<close>

definition response_text :: "state \<Rightarrow> str" where
  "response_text s = concat (response_chunks s)"

text \<open>
  The requests that write to a registry, the stores a request leaves behind, and the
  stores after a sequence of requests.
\<close>

datatype request =
    POST_clientes Cliente
  | POST_facturas Factura
  | POST_productos Producto
  | POST_upload_clients_csv bytes

fun handle :: "(str \<Rightarrow> int option) \<Rightarrow> state \<Rightarrow> request \<Rightarrow> state" where
  "handle int_of s (POST_clientes c) = fst (create_cliente s c)"
| "handle int_of s (POST_facturas f) = fst (create_factura s f)"
| "handle int_of s (POST_productos p) = fst (create_producto s p)"
| "handle int_of s (POST_upload_clients_csv file) = fst (upload_clients_csv int_of s file)"

fun run :: "(str \<Rightarrow> int option) \<Rightarrow> state \<Rightarrow> request list \<Rightarrow> state" where
  "run int_of s [] = s"
| "run int_of s (req # reqs) = run int_of (handle int_of s req) reqs"

definition stores_keyed :: "state \<Rightarrow> bool" where
  "stores_keyed s =
     (keyed_by Cliente.id (db_clientes s) \<and> keyed_by Factura.id (db_facturas s)
      \<and> keyed_by Producto.id (db_productos s))"

section \<open>Facts about dictionaries\<close>

lemma dict_in_iff: "dict_in k d \<longleftrightarrow> k \<in> fst ` set d"
  by (induction d) auto

lemma dict_get_map_of: "dict_get d k = map_of d k"
  by (induction d) auto

lemma dict_in_get: "dict_in k d \<longleftrightarrow> dict_get d k \<noteq> None"
  by (induction d) auto

lemma dict_get_set_same: "dict_get (dict_set d k v) k = Some v"
  by (induction d) auto

lemma dict_get_set_other: "k' \<noteq> k \<Longrightarrow> dict_get (dict_set d k v) k' = dict_get d k'"
  by (induction d) auto

lemma set_dict_set: "set (dict_set d k v) \<subseteq> insert (k, v) (set d)"
  by (induction d) (auto split: if_splits)

lemma keys_dict_set: "fst ` set (dict_set d k v) = insert k (fst ` set d)"
  by (induction d) (auto split: if_splits simp: rev_image_eqI)

lemma dict_set_absent: "\<not> dict_in k d \<Longrightarrow> dict_set d k v = d @ [(k, v)]"
  by (induction d) auto

lemma distinct_dict_set: "distinct (map fst d) \<Longrightarrow> distinct (map fst (dict_set d k v))"
proof (induction d)
  case Nil
  then show ?case by simp
next
  case (Cons a d)
  obtain k' v' where a: "a = (k', v')" by (cases a)
  show ?case
  proof (cases "k' = k")
    case True
    with Cons.prems a show ?thesis by simp
  next
    case False
    have "k' \<notin> fst ` set (dict_set d k v)"
      using Cons.prems a False by (simp add: keys_dict_set)
    with Cons a False show ?thesis by simp
  qed
qed

section \<open>Creating under an id that is taken\<close>

text \<open>
  Claim C1. In each of the three registries, creating a record whose id is already a key
  raises \<open>HTTPException\<close> with status 400, and the stores are left exactly as they were:
  the record under that id and every other entry are the same.
\<close>

theorem create_existing_id_conflict:
  "(dict_in (Cliente.id c) (db_clientes s) \<longrightarrow>
      create_cliente s c = (s, Inl (HTTPException 400 (py ''Client ID already exists''))))
   \<and> (dict_in (Factura.id f) (db_facturas s) \<longrightarrow>
      create_factura s f = (s, Inl (HTTPException 400 (py ''Factura ID already exists''))))
   \<and> (dict_in (Producto.id p) (db_productos s) \<longrightarrow>
      create_producto s p = (s, Inl (HTTPException 400 (py ''Producto ID already exists''))))"
  by (simp add: create_cliente_def create_factura_def create_producto_def)

theorem create_existing_id_conflict_witness:
  "dict_in (Cliente.id ana) (db_clientes stocked)
   \<and> create_cliente stocked ana
       = (stocked, Inl (HTTPException 400 (py ''Client ID already exists'')))
   \<and> dict_in (Factura.id acme) (db_facturas stocked)
   \<and> create_factura stocked acme
       = (stocked, Inl (HTTPException 400 (py ''Factura ID already exists'')))
   \<and> dict_in (Producto.id pen) (db_productos stocked)
   \<and> create_producto stocked pen
       = (stocked, Inl (HTTPException 400 (py ''Producto ID already exists'')))"
  using create_existing_id_conflict [of ana stocked acme pen]
  by (simp add: stocked_def ana_def acme_def pen_def)

section \<open>Reading by id\<close>

lemma dict_in_obtains_value: "dict_in k d \<Longrightarrow> \<exists>v. dict_get d k = Some v"
  by (simp add: dict_in_get)

text \<open>
  Claim C7. In each registry, reading an id that is no key raises \<open>HTTPException\<close> with
  status 404, and reading an id that is a key returns the record stored under it; in both
  cases the stores that come back are the stores that went in.
\<close>

theorem read_by_id_found_or_404:
  "(\<not> dict_in k (db_clientes s) \<longrightarrow>
      read_cliente s k = (s, Inl (HTTPException 404 (py ''Client not found''))))
   \<and> (dict_in k (db_clientes s) \<longrightarrow>
      (\<exists>c. dict_get (db_clientes s) k = Some c \<and> read_cliente s k = (s, Inr c)))
   \<and> (\<not> dict_in k (db_facturas s) \<longrightarrow>
      read_factura s k = (s, Inl (HTTPException 404 (py ''Factura not found''))))
   \<and> (dict_in k (db_facturas s) \<longrightarrow>
      (\<exists>f. dict_get (db_facturas s) k = Some f \<and> read_factura s k = (s, Inr f)))
   \<and> (\<not> dict_in k (db_productos s) \<longrightarrow>
      read_producto s k = (s, Inl (HTTPException 404 (py ''Producto not found''))))
   \<and> (dict_in k (db_productos s) \<longrightarrow>
      (\<exists>p. dict_get (db_productos s) k = Some p \<and> read_producto s k = (s, Inr p)))"
proof -
  have c: "dict_in k (db_clientes s) \<Longrightarrow>
      \<exists>c. dict_get (db_clientes s) k = Some c \<and> read_cliente s k = (s, Inr c)"
    using dict_in_obtains_value [of k "db_clientes s"] by (auto simp: read_cliente_def subscript_def)
  have f: "dict_in k (db_facturas s) \<Longrightarrow>
      \<exists>f. dict_get (db_facturas s) k = Some f \<and> read_factura s k = (s, Inr f)"
    using dict_in_obtains_value [of k "db_facturas s"] by (auto simp: read_factura_def subscript_def)
  have p: "dict_in k (db_productos s) \<Longrightarrow>
      \<exists>p. dict_get (db_productos s) k = Some p \<and> read_producto s k = (s, Inr p)"
    using dict_in_obtains_value [of k "db_productos s"] by (auto simp: read_producto_def subscript_def)
  show ?thesis
    using c f p by (simp add: read_cliente_def read_factura_def read_producto_def)
qed

theorem read_by_id_found_or_404_witness:
  "\<not> dict_in 999 (db_clientes stocked)
   \<and> read_cliente stocked 999 = (stocked, Inl (HTTPException 404 (py ''Client not found'')))
   \<and> \<not> dict_in 999 (db_facturas stocked)
   \<and> read_factura stocked 999 = (stocked, Inl (HTTPException 404 (py ''Factura not found'')))
   \<and> \<not> dict_in 999 (db_productos stocked)
   \<and> read_producto stocked 999
       = (stocked, Inl (HTTPException 404 (py ''Producto not found'')))
   \<and> dict_in 1 (db_clientes stocked) \<and> read_cliente stocked 1 = (stocked, Inr ana)
   \<and> dict_in 10 (db_facturas stocked) \<and> read_factura stocked 10 = (stocked, Inr acme)
   \<and> dict_in 7 (db_productos stocked) \<and> read_producto stocked 7 = (stocked, Inr pen)"
  using read_by_id_found_or_404 [of 999 stocked] read_by_id_found_or_404 [of 1 stocked]
    read_by_id_found_or_404 [of 10 stocked] read_by_id_found_or_404 [of 7 stocked]
  by (simp add: stocked_def)

section \<open>The protected route checks nothing\<close>

text \<open>
  Claim C9. Whatever bearer token the request carries, \<open>protected_route\<close> returns the
  fixed object \<open>{"message": "Access granted"}\<close> and leaves the stores alone: the value of
  the token, issued or not, plays no part, and no token makes the handler fail.
\<close>

theorem protected_route_grants_any_token:
  "protected_route s token' = (s, Inr [(py ''message'', py ''Access granted'')])"
  by (simp add: protected_route_def)

theorem protected_route_grants_any_token_witness:
  "protected_route initial (py ''never-issued'')
     = (initial, Inr [(py ''message'', py ''Access granted'')])"
  using protected_route_grants_any_token [of initial "py ''never-issued''"] by simp

section \<open>Registration\<close>

text \<open>
  Claim C5. \<open>register\<close> on an email that is a key of the user store raises
  \<open>HTTPException\<close> with status 400 and changes nothing. On a new email, with the hash the
  library computed, it appends the user under that email with id one more than the number
  of stored users, and returns that record, hash included; after that, any registration
  under the same email raises the 400.
\<close>

theorem register_conflict_or_count_based_id:
  "(dict_in (UserCreate.email u) (db_users s) \<longrightarrow>
      register h s u = (s, Inl (HTTPException 400 (py ''Email already registered''))))
   \<and> (\<not> dict_in (UserCreate.email u) (db_users s) \<and> h (UserCreate.password u) = Some hp \<longrightarrow>
      register h s u =
        (s\<lparr>db_users := db_users s @
              [(UserCreate.email u,
                \<lparr>User.id = int (length (db_users s)) + 1, User.email = UserCreate.email u,
                 hashed_password = hp\<rparr>)]\<rparr>,
         Inr \<lparr>User.id = int (length (db_users s)) + 1, User.email = UserCreate.email u,
              hashed_password = hp\<rparr>)
      \<and> (\<forall>h' u'. UserCreate.email u' = UserCreate.email u \<longrightarrow>
            snd (register h' (fst (register h s u)) u')
              = Inl (HTTPException 400 (py ''Email already registered''))))"
proof -
  have first: "register h s u =
        (s\<lparr>db_users := db_users s @
              [(UserCreate.email u,
                \<lparr>User.id = int (length (db_users s)) + 1, User.email = UserCreate.email u,
                 hashed_password = hp\<rparr>)]\<rparr>,
         Inr \<lparr>User.id = int (length (db_users s)) + 1, User.email = UserCreate.email u,
              hashed_password = hp\<rparr>)"
    if "\<not> dict_in (UserCreate.email u) (db_users s)" "h (UserCreate.password u) = Some hp"
    using that by (simp add: register_def Let_def dict_set_absent)
  have second: "snd (register h' (fst (register h s u)) u')
        = Inl (HTTPException 400 (py ''Email already registered''))"
    if "\<not> dict_in (UserCreate.email u) (db_users s)" "h (UserCreate.password u) = Some hp"
       "UserCreate.email u' = UserCreate.email u" for h' u'
    using that first [OF that(1,2)] by (simp add: register_def dict_in_iff)
  show ?thesis
    using first second by (simp add: register_def)
qed


theorem register_conflict_or_count_based_id_witness:
  "\<not> dict_in (UserCreate.email eva) (db_users initial)
   \<and> sample_hash (UserCreate.password eva) = Some (py ''$2b$12$pw'')
   \<and> register sample_hash initial eva
       = (initial\<lparr>db_users := [(py ''e@x.com'', eva_user)]\<rparr>, Inr eva_user)
   \<and> dict_in (UserCreate.email eva) (db_users (fst (register sample_hash initial eva)))
   \<and> register sample_hash (fst (register sample_hash initial eva)) eva
       = (initial\<lparr>db_users := [(py ''e@x.com'', eva_user)]\<rparr>,
          Inl (HTTPException 400 (py ''Email already registered'')))"
proof -
  have fresh: "\<not> dict_in (UserCreate.email eva) (db_users initial)"
    by (simp add: initial_def)
  have hashed: "sample_hash (UserCreate.password eva) = Some (py ''$2b$12$pw'')"
    by (simp add: sample_hash_def eva_def py_def)
  have once: "register sample_hash initial eva
       = (initial\<lparr>db_users := [(py ''e@x.com'', eva_user)]\<rparr>, Inr eva_user)"
    using register_conflict_or_count_based_id [of eva initial sample_hash "py ''$2b$12$pw''"]
      fresh hashed
    by (simp add: initial_def eva_def eva_user_def)
  have taken: "dict_in (UserCreate.email eva) (db_users (fst (register sample_hash initial eva)))"
    unfolding once by (simp add: eva_def)
  have twice: "register sample_hash (fst (register sample_hash initial eva)) eva
       = (initial\<lparr>db_users := [(py ''e@x.com'', eva_user)]\<rparr>,
          Inl (HTTPException 400 (py ''Email already registered'')))"
    using register_conflict_or_count_based_id
      [of eva "fst (register sample_hash initial eva)" sample_hash "py ''$2b$12$pw''"] taken
    by (simp add: once)
  show ?thesis using fresh hashed once taken twice by simp
qed

section \<open>Issuing a token\<close>





section \<open>The client summary\<close>

lemma collect_rows_append:
  "collect_rows items facturas rows =
     rows @ map (\<lambda>(k, c). [CInt (Cliente.id c), CStr (documento c),
                            CStr (first_name c @ [32] @ last_name c),
                            CInt (int (length (filter (\<lambda>f. client_id f = k)
                                                 (dict_values facturas))))]) items"
  by (induction items facturas rows rule: collect_rows.induct) (simp_all add: Let_def)

lemma generate_loop_result:
  "generate_loop rows content evs =
     (content @ concat (map (\<lambda>row. join [44] (map str_of row) @ [10]) rows),
      evs @ replicate (length rows) Sleep)"
proof (induction rows arbitrary: content evs)
  case Nil
  show ?case by simp
next
  case (Cons row rows)
  show ?case by (simp add: Cons.IH replicate_app_Cons_same)
qed

lemma chunks_sleeps: "chunks (replicate n Sleep @ evs) = chunks evs"
  by (induction n) simp_all

lemma header_line: "join [44] headers = py ''ID,Documento,Nombre Completo,Cantidad de Facturas''"
  by (simp add: headers_def py_def)

lemma generate_events:
  "generate rows =
     replicate (length rows) Sleep
     @ [Yield (py ''ID,Documento,Nombre Completo,Cantidad de Facturas'' @ [10]
               @ concat (map (\<lambda>row. join [44] (map str_of row) @ [10]) rows))]"
  by (simp add: generate_def generate_loop_result header_line)

lemma summary_line_of_row:
  assumes "Cliente.id c = k"
  shows "join [44] (map str_of [CInt (Cliente.id c), CStr (documento c),
                                 CStr (first_name c @ [32] @ last_name c),
                                 CInt (int (length (filter (\<lambda>f. client_id f = k)
                                                      (dict_values facturas))))]) @ [10]
         = summary_line facturas c"
  using assms by (simp add: summary_line_def invoice_count_def py_def)

lemma summary_lines_of_rows:
  assumes "keyed_by Cliente.id d"
  shows "concat (map (\<lambda>row. join [44] (map str_of row) @ [10]) (collect_rows d facturas []))
         = concat (map (summary_line facturas) (dict_values d))"
proof -
  have "map (\<lambda>row. join [44] (map str_of row) @ [10]) (collect_rows d facturas [])
        = map (summary_line facturas) (dict_values d)"
    using assms
  proof (induction d)
    case Nil
    show ?case by (simp add: dict_values_def)
  next
    case (Cons a d)
    obtain k c where a: "a = (k, c)" by (cases a)
    have k: "Cliente.id c = k" using Cons.prems a by (simp add: keyed_by_def)
    have rest: "keyed_by Cliente.id d" using Cons.prems by (simp add: keyed_by_def)
    have tail: "map (\<lambda>row. join [44] (map str_of row) @ [10]) (collect_rows d facturas [])
        = map (summary_line facturas) (dict_values d)"
      using Cons.IH rest by simp
    show ?case
      using tail summary_line_of_row [OF k, of facturas]
      by (simp add: a collect_rows_append dict_values_def)
  qed
  then show ?thesis by simp
qed

text \<open>
  Claim C3. In every state in which the keys of the client registry are the ids of the
  clients stored under them (the section on keys shows that these are all the states that
  requests lead to), the export
  returns a response whose text is the header line
  \<open>ID,Documento,Nombre Completo,Cantidad de Facturas\<close> followed by one line per stored
  client, in the order of the registry: id, document, first and last name joined by one
  space, and the number of stored invoices whose \<open>client_id\<close> is the client's id. The
  scenario of the specification is the witness: after creating Ana Lee and the Acme
  invoice, the text is the header and the line \<open>1,D1,Ana Lee,1\<close>.
\<close>

theorem export_summary_lines:
  assumes "keyed_by Cliente.id (db_clientes s)"
  shows "\<exists>r. export_clients_csv s = (s, Inr r)
           \<and> body_text r =
               py ''ID,Documento,Nombre Completo,Cantidad de Facturas'' @ [10]
               @ concat (map (summary_line (db_facturas s)) (dict_values (db_clientes s)))"
  using summary_lines_of_rows [OF assms, of "db_facturas s"]
  by (simp add: export_clients_csv_def Let_def body_text_def generate_events chunks_sleeps
      dict_items_def)

lemma scenario_state:
  "scenario = \<lparr>db_users = [], db_clientes = [(1, ana)], db_facturas = [(10, acme)],
               db_productos = []\<rparr>"
  by (simp add: scenario_def create_cliente_def create_factura_def initial_def ana_def acme_def)

lemma summary_line_ana:
  "summary_line [(10, acme)] ana = py ''1,D1,Ana Lee,1'' @ [10]"
  by (simp add: summary_line_def invoice_count_def dict_values_def ana_def acme_def py_def
      str_int_def digits.simps)

theorem export_summary_lines_witness:
  "keyed_by Cliente.id (db_clientes scenario)
   \<and> (\<exists>r. export_clients_csv scenario = (scenario, Inr r)
         \<and> body_text r =
             py ''ID,Documento,Nombre Completo,Cantidad de Facturas'' @ [10]
             @ py ''1,D1,Ana Lee,1'' @ [10])"
proof -
  have keyed: "keyed_by Cliente.id (db_clientes scenario)"
    by (simp add: scenario_state keyed_by_def ana_def)
  show ?thesis
    using export_summary_lines [OF keyed] keyed
    by (simp add: scenario_state dict_values_def summary_line_ana)
qed

section \<open>The chunks of the export\<close>





section \<open>Encoding and decoding agree\<close>

lemma radix64:
  fixes q :: nat
  shows "q div 64 * (64 * m) + q mod 64 * m = q * m"
proof -
  have "q * m = (q div 64 * 64 + q mod 64) * m" by simp
  also have "\<dots> = q div 64 * (64 * m) + q mod 64 * m"
    by (simp only: add_mult_distrib mult.assoc)
  finally show ?thesis by simp
qed

lemma split3:
  fixes c :: nat
  shows "c div 4096 * 4096 + (c div 64) mod 64 * 64 + c mod 64 = c"
proof -
  have d: "c div 4096 = (c div 64) div 64"
    by (simp add: div_mult2_eq [symmetric])
  have "c div 4096 * 4096 + (c div 64) mod 64 * 64 = c div 64 * 64"
    unfolding d using radix64 [of "c div 64" 64] by simp
  then show ?thesis by simp
qed

lemma split4:
  fixes c :: nat
  shows "c div 262144 * 262144 + (c div 4096) mod 64 * 4096 + (c div 64) mod 64 * 64 + c mod 64 = c"
proof -
  have d: "c div 262144 = (c div 4096) div 64"
    by (simp add: div_mult2_eq [symmetric])
  have "c div 262144 * 262144 + (c div 4096) mod 64 * 4096 = c div 4096 * 4096"
    unfolding d using radix64 [of "c div 4096" 4096] by simp
  then show ?thesis using split3 [of c] by simp
qed

lemma mod64_window:
  fixes q :: nat
  assumes "k * 64 + lo \<le> q" "q < k * 64 + hi" "hi \<le> 64"
  shows "lo \<le> q mod 64 \<and> q mod 64 < hi"
proof -
  define r where "r = q - k * 64"
  have q: "q = r + k * 64" using assms(1) by (simp add: r_def)
  have r: "lo \<le> r" "r < hi" using assms by (auto simp: r_def)
  have "q mod 64 = r" unfolding q using r assms(3) by simp
  with r show ?thesis by simp
qed

lemma mid_lo3: fixes c :: nat assumes "2048 \<le> c" "c div 4096 = 0" shows "32 \<le> (c div 64) mod 64"
proof -
  have "c < 4096" using assms(2) by (simp add: div_eq_0_iff)
  then have "c div 64 < 0 * 64 + 64" by simp
  moreover have "0 * 64 + 32 \<le> c div 64" using assms(1) by simp
  ultimately show ?thesis using mod64_window [of 0 32 "c div 64" 64] by simp
qed

lemma mid_hi3: fixes c :: nat assumes "c < 55296" "c div 4096 = 13" shows "(c div 64) mod 64 < 32"
proof -
  have "c div 4096 * 4096 \<le> c" by simp
  then have "53248 \<le> c" using assms(2) by simp
  then have lo: "13 * 64 + 0 \<le> c div 64" by simp
  have hi: "c div 64 < 13 * 64 + 32" using assms(1) by simp
  show ?thesis using mod64_window [OF lo hi] by simp
qed

lemma mid_lo4: fixes c :: nat assumes "65536 \<le> c" "c div 262144 = 0" shows "16 \<le> (c div 4096) mod 64"
proof -
  have "c < 262144" using assms(2) by (simp add: div_eq_0_iff)
  then have "c div 4096 < 0 * 64 + 64" by simp
  moreover have "0 * 64 + 16 \<le> c div 4096" using assms(1) by simp
  ultimately show ?thesis using mod64_window [of 0 16 "c div 4096" 64] by simp
qed

lemma mid_hi4: fixes c :: nat assumes "c < 1114112" "c div 262144 = 4" shows "(c div 4096) mod 64 < 16"
proof -
  have "c div 262144 * 262144 \<le> c" by simp
  then have "1048576 \<le> c" using assms(2) by simp
  then have lo: "4 * 64 + 0 \<le> c div 4096" by simp
  have hi: "c div 4096 < 4 * 64 + 16" using assms(1) by simp
  show ?thesis using mod64_window [OF lo hi] by simp
qed


lemma encode_cp_decodes:
  assumes "encode_cp c = Some bs"
  shows "decode_octets (bs @ rest) = map_option ((#) c) (decode_octets rest)"
proof -
  consider (one) "c < 128" | (two) "128 \<le> c" "c < 2048"
    | (three) "2048 \<le> c" "c < 65536" "\<not> (55296 \<le> c \<and> c < 57344)"
    | (four) "65536 \<le> c" "c < 1114112"
    using assms by (auto simp: encode_cp_def split: if_splits)
  then show ?thesis
  proof cases
    case one
    with assms show ?thesis by (auto simp: encode_cp_def)
  next
    case two
    have bs: "bs = [192 + c div 64, 128 + c mod 64]"
      using assms two by (simp add: encode_cp_def)
    have lead: "2 \<le> c div 64" "c div 64 < 32" using two by auto
    show ?thesis
      unfolding bs using lead by (simp add: is_cont_def)
  next
    case three
    have bs: "bs = [224 + c div 4096, 128 + (c div 64) mod 64, 128 + c mod 64]"
      using assms three by (simp add: encode_cp_def)
    have lead: "c div 4096 < 16" using three by auto
    have lo: "c div 4096 = 0 \<Longrightarrow> 32 \<le> (c div 64) mod 64"
      using three mid_lo3 [of c] by simp
    have hi: "c div 4096 = 13 \<Longrightarrow> (c div 64) mod 64 < 32"
    proof -
      assume d: "c div 4096 = 13"
      have "c div 4096 * 4096 + c mod 4096 = c" by simp
      then have "c < 57344" using d by simp
      then have "c < 55296" using three by simp
      then show ?thesis using mid_hi3 [of c] d by simp
    qed
    show ?thesis
      unfolding bs using lead lo hi split3 [of c] by (simp add: is_cont_def)
  next
    case four
    have bs: "bs = [240 + c div 262144, 128 + (c div 4096) mod 64, 128 + (c div 64) mod 64,
              128 + c mod 64]"
      using assms four by (simp add: encode_cp_def)
    have lead: "c div 262144 < 5" using four by auto
    have lo: "c div 262144 = 0 \<Longrightarrow> 16 \<le> (c div 4096) mod 64"
      using four mid_lo4 [of c] by simp
    have hi: "c div 262144 = 4 \<Longrightarrow> (c div 4096) mod 64 < 16"
      using four mid_hi4 [of c] by simp
    show ?thesis
      unfolding bs using lead lo hi split4 [of c] by (simp add: is_cont_def)
  qed
qed

lemma encode_cp_octets: "encode_cp c = Some bs \<Longrightarrow> \<forall>b \<in> set bs. b < 256"
  by (auto simp: encode_cp_def split: if_splits)

lemma encode_octets_decodes:
  "encode_octets s = Some bs \<Longrightarrow> decode_octets bs = Some s \<and> (\<forall>b \<in> set bs. b < 256)"
proof (induction s arbitrary: bs)
  case Nil
  then show ?case by simp
next
  case (Cons c s)
  from Cons.prems obtain b1 b2 where
    b1: "encode_cp c = Some b1" and b2: "encode_octets s = Some b2" and bs: "bs = b1 @ b2"
    by (auto split: option.splits)
  show ?case
    using Cons.IH [OF b2] encode_cp_decodes [OF b1, of b2] encode_cp_octets [OF b1] bs
    by auto
qed

lemma unat_of_nat_octets:
  "\<forall>b \<in> set bs. b < 256 \<Longrightarrow> map unat (map of_nat bs :: 8 word list) = bs"
  by (induction bs) (simp_all add: unsigned_of_nat take_bit_nat_eq_self)

lemma utf8_roundtrip: "utf8_encode s = Inr bs \<Longrightarrow> utf8_decode bs = Inr s"
  using encode_octets_decodes [of s] unat_of_nat_octets
  by (auto simp: utf8_encode_def utf8_decode_def split: option.splits)


section \<open>Keys are ids\<close>

lemma keyed_by_dict_set:
  assumes "keyed_by ident d"
  shows "keyed_by ident (dict_set d (ident r) r)"
  unfolding keyed_by_def
proof
  fix x
  assume x: "x \<in> set (dict_set d (ident r) r)"
  then have "x = (ident r, r) \<or> x \<in> set d"
    using set_dict_set [of d "ident r" r] by auto
  then show "case x of (k, r') \<Rightarrow> ident r' = k"
    using assms by (auto simp: keyed_by_def)
qed

lemma stores_keyed_create_cliente:
  "stores_keyed s \<Longrightarrow> stores_keyed (fst (create_cliente s c))"
  by (simp add: create_cliente_def stores_keyed_def keyed_by_dict_set)

lemma stores_keyed_create_factura:
  "stores_keyed s \<Longrightarrow> stores_keyed (fst (create_factura s f))"
  by (simp add: create_factura_def stores_keyed_def keyed_by_dict_set)

lemma stores_keyed_create_producto:
  "stores_keyed s \<Longrightarrow> stores_keyed (fst (create_producto s p))"
  by (simp add: create_producto_def stores_keyed_def keyed_by_dict_set)

lemma stores_keyed_import_rows:
  "stores_keyed s \<Longrightarrow> stores_keyed (fst (import_rows int_of fieldnames lines s))"
proof (induction int_of fieldnames lines s rule: import_rows.induct)
  case (1 int_of fieldnames lines s)
  show ?case
  proof (cases "next_row lines")
    case (Inl e)
    with "1.prems" show ?thesis by (simp add: import_rows.simps)
  next
    case (Inr r)
    show ?thesis
    proof (cases r)
      case None
      with Inr "1.prems" show ?thesis by (simp add: import_rows.simps)
    next
      case (Some p)
      obtain row rest where p: "p = (row, rest)" by (cases p)
      show ?thesis
      proof (cases "Cliente_init int_of (DictReader_row fieldnames row)")
        case (Inl e)
        with Inr Some p "1.prems" show ?thesis by (simp add: import_rows.simps)
      next
        case init: (Inr cliente)
        let ?s' = "s\<lparr>db_clientes := dict_set (db_clientes s) (Cliente.id cliente) cliente\<rparr>"
        have "stores_keyed ?s'"
          using "1.prems" by (simp add: stores_keyed_def keyed_by_dict_set)
        then have "stores_keyed (fst (import_rows int_of fieldnames rest ?s'))"
          using Inr Some p init by (intro "1.IH" [of r p row rest cliente]) simp_all
        then show ?thesis
          using Inr Some p init by (simp add: import_rows.simps [of int_of fieldnames lines s])
      qed
    qed
  qed
qed

lemma fst_upload_clients_csv:
  "fst (upload_clients_csv int_of s upload) = s
   \<or> (\<exists>fieldnames lines.
        fst (upload_clients_csv int_of s upload) = fst (import_rows int_of fieldnames lines s))"
proof (cases "utf8_decode upload")
  case (Inl e)
  then show ?thesis by (simp add: upload_clients_csv_def)
next
  case (Inr content)
  show ?thesis
  proof (cases "Reader_iternext (splitlines content)")
    case (Inl e)
    with Inr show ?thesis by (simp add: upload_clients_csv_def)
  next
    case header: (Inr r)
    show ?thesis
    proof (cases r)
      case None
      with Inr header show ?thesis by (simp add: upload_clients_csv_def)
    next
      case (Some p)
      obtain fieldnames lines where p: "p = (fieldnames, lines)" by (cases p)
      have "fst (upload_clients_csv int_of s upload) = fst (import_rows int_of fieldnames lines s)"
        using Inr header Some p
        by (simp add: upload_clients_csv_def split: prod.splits sum.splits)
      then show ?thesis by blast
    qed
  qed
qed

lemma stores_keyed_upload:
  assumes "stores_keyed s"
  shows "stores_keyed (fst (upload_clients_csv int_of s upload))"
  using fst_upload_clients_csv [of int_of s upload] stores_keyed_import_rows [OF assms, of int_of]
    assms
  by auto

lemma stores_keyed_handle: "stores_keyed s \<Longrightarrow> stores_keyed (handle int_of s req)"
  by (cases req)
     (simp_all add: stores_keyed_create_cliente stores_keyed_create_factura
        stores_keyed_create_producto stores_keyed_upload)

lemma stores_keyed_run: "stores_keyed s \<Longrightarrow> stores_keyed (run int_of s reqs)"
  by (induction reqs arbitrary: s) (simp_all add: stores_keyed_handle)

lemma stores_keyed_initial: "stores_keyed initial"
  by (simp add: stores_keyed_def keyed_by_def initial_def)

text \<open>
  Claim C10. After any sequence of create and CSV upload requests from the empty stores,
  every key of the client, invoice and product registries is the id of the record stored
  under it; and each such request, served in stores where that holds, leaves stores where
  it holds, whether the request succeeds or raises.
\<close>

theorem key_is_id_invariant:
  "stores_keyed (run int_of initial reqs)
   \<and> (stores_keyed s \<longrightarrow> stores_keyed (handle int_of s req))"
  by (simp add: stores_keyed_run stores_keyed_initial stores_keyed_handle)



section \<open>The sample file\<close>

lemma encode_octets_ascii: "\<forall>c \<in> set s. c < 128 \<Longrightarrow> encode_octets s = Some s"
  by (induction s) (simp_all add: encode_cp_def)

lemma decode_encoded_ascii:
  assumes "\<forall>c \<in> set s. c < 128"
  shows "utf8_decode (encoded s) = Inr s"
proof -
  have "utf8_encode s = Inr (map of_nat s)"
    using encode_octets_ascii [OF assms] by (simp add: utf8_encode_def)
  then show ?thesis using utf8_roundtrip [of s "map of_nat s"] by (simp add: encoded_def)
qed

lemma clients_csv_lines:
  "splitlines clients_csv =
     [py ''id,documento,first_name,last_name,email,password'',
      py ''1,D9,Ann,Lee,a@y.com,r'', py ''2,D2,Bob,Ray,b@x.com,q'']"
  by (simp add: clients_csv_def splitlines_def py_def is_linebreak_def)

lemmas reader_defs =
  Reader_iternext_def parse_reset_def parse_process_char_def process_START_FIELD_def
  parse_add_char_def parse_save_field_def set_state_def is_newline_def delimiter_def
  quotechar_def field_limit_def

lemma header_row:
  "Reader_iternext (py ''id,documento,first_name,last_name,email,password'' # rest) =
     Inr (Some ([py ''id'', py ''documento'', py ''first_name'', py ''last_name'', py ''email'',
                 py ''password''], rest))"
  by (simp add: reader_defs py_def)

lemma ann_row:
  "Reader_iternext (py ''1,D9,Ann,Lee,a@y.com,r'' # rest) =
     Inr (Some ([py ''1'', py ''D9'', py ''Ann'', py ''Lee'', py ''a@y.com'', py ''r''], rest))"
  by (simp add: reader_defs py_def)

lemma bob_row:
  "Reader_iternext (py ''2,D2,Bob,Ray,b@x.com,q'' # rest) =
     Inr (Some ([py ''2'', py ''D2'', py ''Bob'', py ''Ray'', py ''b@x.com'', py ''q''], rest))"
  by (simp add: reader_defs py_def)

lemma ann_init:
  "Cliente_init decimal (DictReader_row [py ''id'', py ''documento'', py ''first_name'', py ''last_name'', py ''email'',
                 py ''password''] [py ''1'', py ''D9'', py ''Ann'', py ''Lee'', py ''a@y.com'', py ''r'']) = Inr ann"
  by (simp add: Cliente_init_def DictReader_row_def str_field_def decimal_def ann_def py_def)

lemma bob_init:
  "Cliente_init decimal (DictReader_row [py ''id'', py ''documento'', py ''first_name'', py ''last_name'', py ''email'',
                 py ''password''] [py ''2'', py ''D2'', py ''Bob'', py ''Ray'', py ''b@x.com'', py ''q'']) = Inr bob"
  by (simp add: Cliente_init_def DictReader_row_def str_field_def decimal_def bob_def py_def)

lemma end_of_rows: "Reader_iternext [] = Inr None"
  by (simp add: reader_defs)


lemma upload_clients_csv_sample:
  "upload_clients_csv decimal stocked (encoded clients_csv) =
     (stocked\<lparr>db_clientes := [(1, ann), (2, bob)]\<rparr>,
      Inr [(py ''message'', py ''Clientes cargados exitosamente'')])"
proof -
  have ascii: "\<forall>c \<in> set clients_csv. c < 128"
    by (simp add: clients_csv_def py_def)
  have rows: "import_rows decimal [py ''id'', py ''documento'', py ''first_name'', py ''last_name'', py ''email'',
                 py ''password''] [py ''1,D9,Ann,Lee,a@y.com,r'', py ''2,D2,Bob,Ray,b@x.com,q''] stocked
     = (stocked\<lparr>db_clientes := [(1, ann), (2, bob)]\<rparr>, Inr ())"
    apply (subst import_rows.simps)
    apply (subst next_row.simps)
    apply (simp only: ann_row)
    apply (simp add: ann_init)
    apply (subst import_rows.simps)
    apply (subst next_row.simps)
    apply (simp only: bob_row)
    apply (simp add: bob_init)
    apply (subst import_rows.simps)
    apply (subst next_row.simps)
    apply (simp add: end_of_rows stocked_def ann_def bob_def)
    done
  show ?thesis
    by (simp add: upload_clients_csv_def decode_encoded_ascii [OF ascii] clients_csv_lines header_row rows)
qed

lemma stocked_built:
  "run decimal initial [POST_clientes ana, POST_facturas acme, POST_productos pen] = stocked"
  by (simp add: create_cliente_def create_factura_def create_producto_def initial_def
      stocked_def ana_def acme_def pen_def)

lemma run_append: "run int_of s (reqs @ reqs') = run int_of (run int_of s reqs) reqs'"
  by (induction reqs arbitrary: s) simp_all

theorem key_is_id_invariant_witness:
  "stores_keyed stocked
   \<and> handle decimal stocked (POST_upload_clients_csv (encoded clients_csv))
       = stocked\<lparr>db_clientes := [(1, ann), (2, bob)]\<rparr>
   \<and> stores_keyed (stocked\<lparr>db_clientes := [(1, ann), (2, bob)]\<rparr>)
   \<and> run decimal initial
         [POST_clientes ana, POST_facturas acme, POST_productos pen,
          POST_upload_clients_csv (encoded clients_csv), POST_clientes bob]
       = stocked\<lparr>db_clientes := [(1, ann), (2, bob)]\<rparr>"
proof -
  have before: "stores_keyed stocked"
    by (simp add: stores_keyed_def keyed_by_def stocked_def ana_def acme_def pen_def)
  have step: "handle decimal stocked (POST_upload_clients_csv (encoded clients_csv))
       = stocked\<lparr>db_clientes := [(1, ann), (2, bob)]\<rparr>"
    by (simp add: upload_clients_csv_sample)
  have "run decimal initial
         ([POST_clientes ana, POST_facturas acme, POST_productos pen]
          @ [POST_upload_clients_csv (encoded clients_csv), POST_clientes bob])
       = stocked\<lparr>db_clientes := [(1, ann), (2, bob)]\<rparr>"
    unfolding run_append stocked_built
    by (simp add: upload_clients_csv_sample create_cliente_def bob_def)
  then have all: "run decimal initial
         [POST_clientes ana, POST_facturas acme, POST_productos pen,
          POST_upload_clients_csv (encoded clients_csv), POST_clientes bob]
       = stocked\<lparr>db_clientes := [(1, ann), (2, bob)]\<rparr>"
    by simp
  show ?thesis
    using key_is_id_invariant
        [of decimal "[POST_clientes ana, POST_facturas acme, POST_productos pen,
          POST_upload_clients_csv (encoded clients_csv), POST_clientes bob]" stocked
          "POST_upload_clients_csv (encoded clients_csv)"]
      before
    unfolding all step by simp
qed

section \<open>The upload stores every row\<close>

lemma import_rows_all:
  "read_rows fieldnames lines = Inr rows \<Longrightarrow> map (Cliente_init int_of) rows = map Inr cs \<Longrightarrow>
   import_rows int_of fieldnames lines s
     = (s\<lparr>db_clientes := upsert_all (db_clientes s) cs\<rparr>, Inr ())"
proof (induction fieldnames lines arbitrary: rows cs s rule: read_rows.induct)
  case (1 fieldnames lines)
  show ?case
  proof (cases "next_row lines")
    case (Inl e)
    with "1.prems" show ?thesis by (simp add: read_rows.simps [of fieldnames lines])
  next
    case (Inr r)
    show ?thesis
    proof (cases r)
      case None
      with Inr "1.prems" show ?thesis
        by (simp add: read_rows.simps [of fieldnames lines]
            import_rows.simps [of int_of fieldnames lines s] upsert_all_def)
    next
      case (Some p)
      obtain row rest where p: "p = (row, rest)" by (cases p)
      from "1.prems"(1) Inr Some p obtain rows' where
        tail: "read_rows fieldnames rest = Inr rows'" and
        rows: "rows = DictReader_row fieldnames row # rows'"
        by (auto simp: read_rows.simps [of fieldnames lines] split: sum.splits)
      from "1.prems"(2) rows obtain c cs' where
        cs: "cs = c # cs'" and
        c: "Cliente_init int_of (DictReader_row fieldnames row) = Inr c" and
        cs': "map (Cliente_init int_of) rows' = map Inr cs'"
        by (cases cs) auto
      let ?s' = "s\<lparr>db_clientes := dict_set (db_clientes s) (Cliente.id c) c\<rparr>"
      have "import_rows int_of fieldnames rest ?s'
              = (?s'\<lparr>db_clientes := upsert_all (db_clientes ?s') cs'\<rparr>, Inr ())"
        using Inr Some p tail cs' by (intro "1.IH" [of r p row rest rows' cs']) simp_all
      then show ?thesis
        using Inr Some p c cs
        by (simp add: import_rows.simps [of int_of fieldnames lines s] upsert_all_def)
    qed
  qed
qed

lemma upsert_all_snoc:
  "upsert_all d (cs @ [c]) = dict_set (upsert_all d cs) (Cliente.id c) c"
  by (simp add: upsert_all_def)

lemma dict_get_upsert_all:
  "dict_get (upsert_all d cs) k =
     (case find (\<lambda>c. Cliente.id c = k) (rev cs) of None \<Rightarrow> dict_get d k | Some c \<Rightarrow> Some c)"
proof (induction cs rule: rev_induct)
  case Nil
  show ?case by (simp add: upsert_all_def)
next
  case (snoc c cs)
  show ?case
  proof (cases "Cliente.id c = k")
    case True
    then show ?thesis by (simp add: upsert_all_snoc dict_get_set_same)
  next
    case False
    then have "k \<noteq> Cliente.id c" by blast
    with snoc False show ?thesis by (simp add: upsert_all_snoc dict_get_set_other)
  qed
qed

text \<open>
  Claim C6. When the uploaded bytes decode as UTF-8, the CSV reader gets through the
  lines of the text and every dictionary it gives validates as a client (the keys come
  from the header row, so the header has to name the fields of \<open>Cliente\<close> as they are
  spelt), \<open>upload_clients_csv\<close> stores one client per data row under its id, in the
  order of the rows, and returns the message object. A client already stored under such
  an id is replaced and no conflict is raised: afterwards an id holds the last row that
  has it, and the ids that no row has hold what they held.
\<close>

theorem upload_upserts_every_row:
  assumes "utf8_decode upload = Inr content"
    and "DictReader_rows (splitlines content) = Inr rows"
    and "map (Cliente_init int_of) rows = map Inr cs"
  shows "upload_clients_csv int_of s upload
           = (s\<lparr>db_clientes := upsert_all (db_clientes s) cs\<rparr>,
              Inr [(py ''message'', py ''Clientes cargados exitosamente'')])
         \<and> (\<forall>k. dict_get (upsert_all (db_clientes s) cs) k =
               (case find (\<lambda>c. Cliente.id c = k) (rev cs) of
                  None \<Rightarrow> dict_get (db_clientes s) k
                | Some c \<Rightarrow> Some c))"
proof -
  have "upload_clients_csv int_of s upload
           = (s\<lparr>db_clientes := upsert_all (db_clientes s) cs\<rparr>,
              Inr [(py ''message'', py ''Clientes cargados exitosamente'')])"
  proof (cases "Reader_iternext (splitlines content)")
    case (Inl e)
    with assms(2) show ?thesis by (simp add: DictReader_rows_def)
  next
    case (Inr r)
    show ?thesis
    proof (cases r)
      case None
      with Inr assms(2) have "rows = []" by (simp add: DictReader_rows_def)
      with assms(3) have "cs = []" by simp
      with Inr None assms(1) show ?thesis
        by (simp add: upload_clients_csv_def upsert_all_def)
    next
      case (Some p)
      obtain fieldnames lines where p: "p = (fieldnames, lines)" by (cases p)
      have "read_rows fieldnames lines = Inr rows"
        using assms(2) Inr Some p by (simp add: DictReader_rows_def)
      then have "import_rows int_of fieldnames lines s
                   = (s\<lparr>db_clientes := upsert_all (db_clientes s) cs\<rparr>, Inr ())"
        using assms(3) by (rule import_rows_all)
      with Inr Some p assms(1) show ?thesis by (simp add: upload_clients_csv_def)
    qed
  qed
  then show ?thesis by (simp add: dict_get_upsert_all)
qed

lemma clients_csv_rows:
  "DictReader_rows (splitlines clients_csv) =
     Inr [DictReader_row [py ''id'', py ''documento'', py ''first_name'', py ''last_name'',
                          py ''email'', py ''password'']
            [py ''1'', py ''D9'', py ''Ann'', py ''Lee'', py ''a@y.com'', py ''r''],
          DictReader_row [py ''id'', py ''documento'', py ''first_name'', py ''last_name'',
                          py ''email'', py ''password'']
            [py ''2'', py ''D2'', py ''Bob'', py ''Ray'', py ''b@x.com'', py ''q'']]"
  apply (simp only: DictReader_rows_def clients_csv_lines header_row sum.case option.case
      prod.case)
  apply (subst read_rows.simps)
  apply (subst next_row.simps)
  apply (simp only: ann_row)
  apply simp
  apply (subst read_rows.simps)
  apply (subst next_row.simps)
  apply (simp only: bob_row)
  apply simp
  apply (subst read_rows.simps)
  apply (subst next_row.simps)
  apply (simp add: end_of_rows)
  done

theorem upload_upserts_every_row_witness:
  "utf8_decode (encoded clients_csv) = Inr clients_csv
   \<and> dict_get (db_clientes stocked) 1 = Some ana
   \<and> upload_clients_csv decimal stocked (encoded clients_csv)
       = (stocked\<lparr>db_clientes := [(1, ann), (2, bob)]\<rparr>,
          Inr [(py ''message'', py ''Clientes cargados exitosamente'')])"
proof -
  have ascii: "\<forall>c \<in> set clients_csv. c < 128"
    by (simp add: clients_csv_def py_def)
  have decoded: "utf8_decode (encoded clients_csv) = Inr clients_csv"
    by (rule decode_encoded_ascii [OF ascii])
  have valid: "map (Cliente_init decimal)
      [DictReader_row [py ''id'', py ''documento'', py ''first_name'', py ''last_name'',
                          py ''email'', py ''password'']
            [py ''1'', py ''D9'', py ''Ann'', py ''Lee'', py ''a@y.com'', py ''r''],
          DictReader_row [py ''id'', py ''documento'', py ''first_name'', py ''last_name'',
                          py ''email'', py ''password'']
            [py ''2'', py ''D2'', py ''Bob'', py ''Ray'', py ''b@x.com'', py ''q'']]
      = map Inr [ann, bob]"
    by (simp add: ann_init bob_init)
  have stored: "upsert_all (db_clientes stocked) [ann, bob] = [(1, ann), (2, bob)]"
    by (simp add: upsert_all_def stocked_def ann_def bob_def)
  have before: "dict_get (db_clientes stocked) 1 = Some ana"
    by (simp add: stocked_def)
  show ?thesis
    using upload_upserts_every_row [OF decoded clients_csv_rows valid, of stocked]
      decoded before
    by (simp add: stored)
qed


section \<open>The export read back by the import\<close>

lemma digits_head: "\<exists>d ds. digits n = d # ds \<and> 48 \<le> d \<and> d \<le> 57"
proof (induction n rule: digits.induct)
  case (1 n)
  show ?case
  proof (cases "n < 10")
    case True
    then show ?thesis by (simp add: digits.simps [of n])
  next
    case False
    then obtain d ds where "digits (n div 10) = d # ds" "48 \<le> d" "d \<le> 57"
      using 1 by blast
    with False show ?thesis by (simp add: digits.simps [of n])
  qed
qed

lemma str_int_head: "\<exists>d ds. str_int i = d # ds \<and> (d = 45 \<or> (48 \<le> d \<and> d \<le> 57))"
  using digits_head [of "nat i"] by (auto simp: str_int_def)

lemma response_text_rows:
  "response_text s =
     py ''ID,Documento,Nombre Completo,Cantidad de Facturas'' @ [10]
     @ concat (map (\<lambda>row. join [44] (map str_of row) @ [10])
                 (collect_rows (db_clientes s) (db_facturas s) []))"
  by (simp add: response_text_def response_chunks_def export_clients_csv_def Let_def
      generate_events chunks_sleeps dict_items_def)

lemma response_text_empty:
  "db_clientes s = [] \<Longrightarrow>
   response_text s = py ''ID,Documento,Nombre Completo,Cantidad de Facturas'' @ [10]"
  by (simp add: response_text_rows)

lemma response_text_nonempty:
  assumes "db_clientes s \<noteq> []"
  shows "\<exists>d etc. response_text s =
           py ''ID,Documento,Nombre Completo,Cantidad de Facturas'' @ 10 # d # etc
           \<and> (d = 45 \<or> (48 \<le> d \<and> d \<le> 57))"
proof -
  obtain k c items where items: "db_clientes s = (k, c) # items"
    using assms by (cases "db_clientes s") auto
  obtain d ds where d: "str_int (Cliente.id c) = d # ds" "d = 45 \<or> (48 \<le> d \<and> d \<le> 57)"
    using str_int_head [of "Cliente.id c"] by blast
  show ?thesis
    using d by (simp add: response_text_rows items collect_rows_append)
qed

lemma splitlines_header_only:
  "splitlines (py ''ID,Documento,Nombre Completo,Cantidad de Facturas'' @ [10])
     = [py ''ID,Documento,Nombre Completo,Cantidad de Facturas'']"
  by (simp add: splitlines_def py_def is_linebreak_def)

lemma splitlines_header:
  "splitlines (py ''ID,Documento,Nombre Completo,Cantidad de Facturas'' @ 10 # d # etc)
     = py ''ID,Documento,Nombre Completo,Cantidad de Facturas'' # splitlines (d # etc)"
  by (simp add: splitlines_def py_def is_linebreak_def)

lemma splitlines_from_started:
  "cur \<noteq> [] \<Longrightarrow> \<exists>l ls. splitlines_from cur xs = (cur @ l) # ls"
proof (induction cur xs rule: splitlines_from.induct)
  case (1 cur)
  then show ?case by simp
next
  case (2 cur c)
  then show ?case by simp
next
  case (3 cur c d cs)
  show ?case
  proof (cases "(c = 13 \<and> d = 10) \<or> is_linebreak c")
    case True
    then show ?thesis by auto
  next
    case False
    then obtain l ls where "splitlines_from (cur @ [c]) (d # cs) = ((cur @ [c]) @ l) # ls"
      using "3.IH"(3) by auto
    with False show ?thesis by auto
  qed
qed

lemma splitlines_first_line:
  assumes "\<not> is_linebreak d"
  shows "\<exists>l ls. splitlines (d # etc) = (d # l) # ls"
proof (cases etc)
  case Nil
  with assms show ?thesis by (simp add: splitlines_def)
next
  case (Cons e cs)
  obtain l ls where "splitlines_from [d] (e # cs) = ([d] @ l) # ls"
    using splitlines_from_started [of "[d]" "e # cs"] by auto
  moreover have "d \<noteq> 13" using assms by (auto simp: is_linebreak_def)
  ultimately show ?thesis using assms Cons by (auto simp: splitlines_def)
qed

lemma export_header_read:
  "Reader_iternext (py ''ID,Documento,Nombre Completo,Cantidad de Facturas'' # lines) =
     Inr (Some (headers, lines))"
  by (simp add: reader_defs py_def headers_def)

lemma started_char:
  "started p \<Longrightarrow> parse_process_char p (Chr c) = Inr p' \<Longrightarrow> started p'"
  by (cases "rstate p")
     (auto simp: started_def parse_process_char_def process_START_FIELD_def
        parse_add_char_def parse_save_field_def set_state_def is_newline_def
        split: if_splits)

lemma started_chars:
  "started p \<Longrightarrow> process_chars p l = Inr p' \<Longrightarrow> started p'"
proof (induction l arbitrary: p)
  case Nil
  then show ?case by simp
next
  case (Cons c l)
  then show ?case by (auto split: sum.splits dest: started_char)
qed

lemma started_EOL:
  "started p \<Longrightarrow> parse_process_char p EOL = Inr p' \<Longrightarrow>
   rstate p' = IN_QUOTED_FIELD \<or> (rstate p' = START_RECORD \<and> rfields p' \<noteq> [])"
  by (cases "rstate p")
     (auto simp: started_def parse_process_char_def process_START_FIELD_def
        parse_add_char_def parse_save_field_def set_state_def is_newline_def
        split: if_splits)

lemma Reader_loop_quoted:
  "rstate p = IN_QUOTED_FIELD \<Longrightarrow> Reader_loop p ls = Inr r \<Longrightarrow>
   \<exists>row rest. r = Some (row, rest) \<and> row \<noteq> []"
proof (induction ls arbitrary: p)
  case Nil
  then show ?case by (auto simp: parse_save_field_def)
next
  case (Cons l ls)
  have st: "started p" using Cons.prems(1) by (simp add: started_def)
  from Cons.prems(2) obtain p1 p2 where
    p1: "process_chars p l = Inr p1" and p2: "parse_process_char p1 EOL = Inr p2"
    by (auto split: sum.splits)
  have "started p1" using st p1 by (rule started_chars)
  then consider "rstate p2 = IN_QUOTED_FIELD" | "rstate p2 = START_RECORD" "rfields p2 \<noteq> []"
    using started_EOL [OF _ p2] by blast
  then show ?case
  proof cases
    case 1
    then have "Reader_loop p2 ls = Inr r" using Cons.prems(2) p1 p2 by simp
    with 1 show ?thesis by (rule Cons.IH)
  next
    case 2
    then show ?thesis using Cons.prems(2) p1 p2 by auto
  qed
qed

lemma Reader_iternext_begun:
  assumes "d \<noteq> 44" "d \<noteq> 34" "d \<noteq> 10" "d \<noteq> 13"
    and "Reader_iternext ((d # l) # ls) = Inr r"
  shows "\<exists>row rest. r = Some (row, rest) \<and> row \<noteq> []"
proof -
  define p0 where "p0 = \<lparr>rstate = IN_FIELD, rfields = [], rfield = [d]\<rparr>"
  have first: "parse_process_char parse_reset (Chr d) = Inr p0"
    using assms(1-4) by (simp add: reader_defs p0_def)
  have st: "started p0" by (simp add: started_def p0_def)
  from assms(5) first obtain p1 p2 where
    p1: "process_chars p0 l = Inr p1" and p2: "parse_process_char p1 EOL = Inr p2"
    by (auto simp: Reader_iternext_def split: sum.splits)
  have "started p1" using st p1 by (rule started_chars)
  then consider "rstate p2 = IN_QUOTED_FIELD" | "rstate p2 = START_RECORD" "rfields p2 \<noteq> []"
    using started_EOL [OF _ p2] by blast
  then show ?thesis
  proof cases
    case 1
    then have "Reader_loop p2 ls = Inr r"
      using assms(5) first p1 p2 by (simp add: Reader_iternext_def)
    with 1 show ?thesis by (rule Reader_loop_quoted)
  next
    case 2
    then show ?thesis using assms(5) first p1 p2 by (auto simp: Reader_iternext_def)
  qed
qed

lemma parse_process_char_error: "parse_process_char p c = Inl e \<Longrightarrow> e = CsvError"
  by (cases "rstate p")
     (auto simp: parse_process_char_def process_START_FIELD_def parse_add_char_def
        set_state_def split: if_splits sym.splits sum.splits)

lemma process_chars_error: "process_chars p l = Inl e \<Longrightarrow> e = CsvError"
proof (induction l arbitrary: p)
  case Nil
  then show ?case by simp
next
  case (Cons c l)
  then show ?case by (auto split: sum.splits dest: parse_process_char_error)
qed

lemma Reader_loop_error: "Reader_loop p ls = Inl e \<Longrightarrow> e = CsvError"
proof (induction ls arbitrary: p)
  case Nil
  then show ?case by (simp split: if_splits)
next
  case (Cons l ls)
  then show ?case
    by (auto split: sum.splits if_splits dest: parse_process_char_error process_chars_error)
qed

lemma next_row_begun:
  assumes "d \<noteq> 44" "d \<noteq> 34" "d \<noteq> 10" "d \<noteq> 13"
  shows "next_row ((d # l) # ls) = Inl CsvError
         \<or> (\<exists>row rest. next_row ((d # l) # ls) = Inr (Some (row, rest)))"
proof (cases "Reader_iternext ((d # l) # ls)")
  case (Inl e)
  then have "e = CsvError" unfolding Reader_iternext_def by (rule Reader_loop_error)
  with Inl show ?thesis by (simp add: next_row.simps [of "(d # l) # ls"])
next
  case (Inr r)
  then obtain row rest where "r = Some (row, rest)" "row \<noteq> []"
    using Reader_iternext_begun [OF assms] by blast
  with Inr show ?thesis by (simp add: next_row.simps [of "(d # l) # ls"])
qed

lemma keys_dict_of: "fst ` set (dict_of kvs d) = fst ` set kvs \<union> fst ` set d"
  by (induction kvs d rule: dict_of.induct) (auto simp: keys_dict_set)

lemma keys_set_restval: "fst ` set (set_restval ks d) = Some ` set ks \<union> fst ` set d"
  by (induction ks d rule: set_restval.induct) (auto simp: keys_dict_set)

lemma keys_DictReader_row:
  "fst ` set (DictReader_row fieldnames row) \<subseteq> insert None (Some ` set fieldnames)"
proof -
  have zip: "fst ` set (zip (map Some fieldnames) (map VStr row)) \<subseteq> Some ` set fieldnames"
    by (auto dest: set_zip_leftD)
  have drop: "set (drop n fieldnames) \<subseteq> set fieldnames" for n
    by (rule set_drop_subset)
  show ?thesis
    using zip drop [of "length row"]
    by (auto simp: DictReader_row_def Let_def keys_dict_of keys_set_restval keys_dict_set)
qed

lemma dict_get_absent: "k \<notin> fst ` set d \<Longrightarrow> dict_get d k = None"
  using dict_in_get [of k d] by (simp add: dict_in_iff)

lemma Cliente_init_summary_row:
  "Cliente_init int_of (DictReader_row headers row) = Inl TypeError
   \<or> Cliente_init int_of (DictReader_row headers row) = Inl ValidationError"
proof -
  have "py ''id'' \<notin> set headers" by (simp add: headers_def py_def)
  then have "Some (py ''id'') \<notin> fst ` set (DictReader_row headers row)"
    using keys_DictReader_row [of headers row] by auto
  then have "str_field (DictReader_row headers row) ''id'' = None"
    by (simp add: str_field_def dict_get_absent)
  then show ?thesis by (simp add: Cliente_init_def)
qed

lemma import_rows_begun:
  assumes "d \<noteq> 44" "d \<noteq> 34" "d \<noteq> 10" "d \<noteq> 13"
  shows "\<exists>e. import_rows int_of headers ((d # l) # ls) s = (s, Inl e)
             \<and> (e = ValidationError \<or> e = TypeError \<or> e = CsvError)"
proof -
  consider "next_row ((d # l) # ls) = Inl CsvError"
    | row rest where "next_row ((d # l) # ls) = Inr (Some (row, rest))"
    using next_row_begun [OF assms, of l ls] by blast
  then show ?thesis
  proof cases
    case 1
    then show ?thesis by (simp add: import_rows.simps [of int_of headers "(d # l) # ls" s])
  next
    case 2
    consider "Cliente_init int_of (DictReader_row headers row) = Inl TypeError"
      | "Cliente_init int_of (DictReader_row headers row) = Inl ValidationError"
      using Cliente_init_summary_row [of int_of row] by blast
    then show ?thesis
      using 2 by cases (simp_all add: import_rows.simps [of int_of headers "(d # l) # ls" s])
  qed
qed

lemma import_rows_no_lines: "import_rows int_of fieldnames [] s = (s, Inr ())"
  by (simp add: import_rows.simps [of int_of fieldnames "[]" s] next_row.simps [of "[]"]
      end_of_rows)

text \<open>
  Claim C2, as the code has it. The export does not write the columns the import reads:
  its header is \<open>ID,Documento,Nombre Completo,Cantidad de Facturas\<close>, and the import
  needs \<open>id\<close>, \<open>documento\<close>, \<open>first_name\<close>, \<open>last_name\<close>, \<open>email\<close> and \<open>password\<close>.
  So uploading the file that an export produced never stores a client. From a registry
  without clients the file is the header alone, and the upload returns its message. From
  a registry with at least one client the upload raises at the first data row, a
  validation error for a row as long as the header or shorter, a type error for a longer
  one, or an error of the CSV reader, and the stores are the ones it was given.
\<close>

theorem export_then_import_stores_nothing:
  assumes "utf8_encode (response_text s0) = Inr upload"
  shows "fst (upload_clients_csv int_of s upload) = s
         \<and> (db_clientes s0 = [] \<longrightarrow>
              snd (upload_clients_csv int_of s upload)
                = Inr [(py ''message'', py ''Clientes cargados exitosamente'')])
         \<and> (db_clientes s0 \<noteq> [] \<longrightarrow>
              snd (upload_clients_csv int_of s upload) = Inl ValidationError
              \<or> snd (upload_clients_csv int_of s upload) = Inl TypeError
              \<or> snd (upload_clients_csv int_of s upload) = Inl CsvError)"
proof (cases "db_clientes s0 = []")
  case True
  have "utf8_decode upload
          = Inr (py ''ID,Documento,Nombre Completo,Cantidad de Facturas'' @ [10])"
    using utf8_roundtrip [OF assms] response_text_empty [OF True] by simp
  then have "upload_clients_csv int_of s upload
          = (s, Inr [(py ''message'', py ''Clientes cargados exitosamente'')])"
    by (simp add: upload_clients_csv_def splitlines_header_only export_header_read
        import_rows_no_lines)
  with True show ?thesis by simp
next
  case False
  obtain d etc where
    content: "response_text s0 =
                py ''ID,Documento,Nombre Completo,Cantidad de Facturas'' @ 10 # d # etc" and
    d: "d = 45 \<or> (48 \<le> d \<and> d \<le> 57)"
    using response_text_nonempty [OF False] by blast
  have nobreak: "\<not> is_linebreak d" using d by (auto simp: is_linebreak_def)
  have plain: "d \<noteq> 44" "d \<noteq> 34" "d \<noteq> 10" "d \<noteq> 13" using d by auto
  obtain l ls where lines: "splitlines (d # etc) = (d # l) # ls"
    using splitlines_first_line [OF nobreak] by blast
  obtain e where
    e: "import_rows int_of headers ((d # l) # ls) s = (s, Inl e)" and
    kind: "e = ValidationError \<or> e = TypeError \<or> e = CsvError"
    using import_rows_begun [OF plain] by blast
  have "utf8_decode upload
          = Inr (py ''ID,Documento,Nombre Completo,Cantidad de Facturas'' @ 10 # d # etc)"
    using utf8_roundtrip [OF assms] content by simp
  then have "upload_clients_csv int_of s upload = (s, Inl e)"
    by (simp add: upload_clients_csv_def splitlines_header lines export_header_read e)
  with False kind show ?thesis by auto
qed

lemma response_text_scenario:
  "response_text scenario =
     py ''ID,Documento,Nombre Completo,Cantidad de Facturas'' @ [10]
     @ py ''1,D1,Ana Lee,1'' @ [10]"
  by (simp add: response_text_rows scenario_state collect_rows_append dict_values_def
      ana_def acme_def py_def str_int_def digits.simps)

lemma encoded_ascii:
  assumes "\<forall>c \<in> set s. c < 128"
  shows "utf8_encode s = Inr (encoded s)"
  using encode_octets_ascii [OF assms] by (simp add: utf8_encode_def encoded_def)

lemma response_text_scenario_ascii: "\<forall>c \<in> set (response_text scenario). c < 128"
  by (simp add: response_text_scenario py_def)

lemma response_text_initial_ascii: "\<forall>c \<in> set (response_text initial). c < 128"
  by (simp add: response_text_empty initial_def py_def)

lemma upload_of_scenario_export:
  "upload_clients_csv decimal s (encoded (response_text scenario)) = (s, Inl ValidationError)"
proof -
  have decoded: "utf8_decode (encoded (response_text scenario)) = Inr (response_text scenario)"
    by (rule decode_encoded_ascii [OF response_text_scenario_ascii])
  have lines: "splitlines (response_text scenario) =
      [py ''ID,Documento,Nombre Completo,Cantidad de Facturas'', py ''1,D1,Ana Lee,1'']"
    by (simp add: response_text_scenario splitlines_def py_def is_linebreak_def)
  have row: "Reader_iternext [py ''1,D1,Ana Lee,1''] =
      Inr (Some ([py ''1'', py ''D1'', py ''Ana Lee'', py ''1''], []))"
    by (simp add: reader_defs py_def)
  have init: "Cliente_init decimal
      (DictReader_row headers [py ''1'', py ''D1'', py ''Ana Lee'', py ''1''])
      = Inl ValidationError"
    by (simp add: Cliente_init_def DictReader_row_def str_field_def headers_def py_def)
  have "import_rows decimal headers [py ''1,D1,Ana Lee,1''] s = (s, Inl ValidationError)"
    by (simp add: import_rows.simps [of decimal headers "[py ''1,D1,Ana Lee,1'']" s]
        next_row.simps [of "[py ''1,D1,Ana Lee,1'']"] row init)
  then show ?thesis
    by (simp add: upload_clients_csv_def decoded lines export_header_read)
qed

theorem export_then_import_stores_nothing_witness:
  "utf8_encode (response_text scenario) = Inr (encoded (response_text scenario))
   \<and> db_clientes scenario \<noteq> []
   \<and> upload_clients_csv decimal stocked (encoded (response_text scenario))
       = (stocked, Inl ValidationError)
   \<and> utf8_encode (response_text initial) = Inr (encoded (response_text initial))
   \<and> db_clientes initial = []
   \<and> upload_clients_csv decimal stocked (encoded (response_text initial))
       = (stocked, Inr [(py ''message'', py ''Clientes cargados exitosamente'')])"
proof -
  have full: "utf8_encode (response_text scenario) = Inr (encoded (response_text scenario))"
    by (rule encoded_ascii [OF response_text_scenario_ascii])
  have none: "utf8_encode (response_text initial) = Inr (encoded (response_text initial))"
    by (rule encoded_ascii [OF response_text_initial_ascii])
  have some: "db_clientes scenario \<noteq> []" by (simp add: scenario_state)
  have empty: "db_clientes initial = []" by (simp add: initial_def)
  have raised: "upload_clients_csv decimal stocked (encoded (response_text scenario))
       = (stocked, Inl ValidationError)"
    using export_then_import_stores_nothing [OF full, of decimal stocked]
      upload_of_scenario_export [of stocked]
    by simp
  have returned: "upload_clients_csv decimal stocked (encoded (response_text initial))
       = (stocked, Inr [(py ''message'', py ''Clientes cargados exitosamente'')])"
    using export_then_import_stores_nothing [OF none, of decimal stocked] empty
    by (simp add: prod_eq_iff)
  show ?thesis using full none some empty raised returned by simp
qed

text \<open>
  The registry that holds Ana Lee, exported and read back into empty stores, gives a
  validation error and an empty registry; read back into the stores it came from, the
  same error.
\<close>

theorem export_import_round_trip_counterexample:
  "utf8_encode (response_text scenario) = Inr (encoded (response_text scenario))
   \<and> upload_clients_csv decimal initial (encoded (response_text scenario))
       = (initial, Inl ValidationError)
   \<and> set (client_facts (db_clientes initial)) \<noteq> set (client_facts (db_clientes scenario))
   \<and> upload_clients_csv decimal scenario (encoded (response_text scenario))
       = (scenario, Inl ValidationError)"
proof -
  have "utf8_encode (response_text scenario) = Inr (encoded (response_text scenario))"
    by (rule encoded_ascii [OF response_text_scenario_ascii])
  moreover have "set (client_facts (db_clientes initial))
                   \<noteq> set (client_facts (db_clientes scenario))"
    by (simp add: client_facts_def dict_values_def initial_def scenario_state)
  ultimately show ?thesis by (simp add: upload_of_scenario_export)
qed


end
